theory Spec2Isabelle
  imports Main
begin

section \<open>Python failures as values\<close>

datatype error = AssertionError | KeyError | ZeroDivisionError

section \<open>Axes, orders and variables\<close>

datatype Axis = Axis_N | Axis_C | Axis_H | Axis_W | Axis_T

type_synonym Order = "Axis list"

definition OrderNHWC :: Order where
  "OrderNHWC = [Axis_N, Axis_H, Axis_W, Axis_C]"

text \<open>
  Modelled from the spec: the class \<open>Variable\<close> (\<open>webdnn/graph/variable.py\<close> is not part of
  the sources at hand). A variable carries a shape, one extent per axis of its order.
\<close>

record Variable =
  shape :: "int list"
  order :: Order

definition Variable_new :: "int list \<Rightarrow> Order \<Rightarrow> Variable" where
  "Variable_new sh ord = \<lparr>shape = sh, order = ord\<rparr>"

text \<open>
  Modelled from the spec: \<open>Variable.shape_dict\<close>, the mapping from each axis of the order to
  its extent.
\<close>

definition shape_dict :: "Variable \<Rightarrow> Axis \<rightharpoonup> int" where
  "shape_dict v = map_of (zip (order v) (shape v))"

definition getitem :: "('k \<rightharpoonup> 'v) \<Rightarrow> 'k \<Rightarrow> error + 'v" where
  "getitem m k = (case m k of None \<Rightarrow> Inl KeyError | Some v \<Rightarrow> Inr v)"

definition bind_err :: "error + 'a \<Rightarrow> ('a \<Rightarrow> error + 'b) \<Rightarrow> error + 'b" where
  "bind_err m f = (case m of Inl e \<Rightarrow> Inl e | Inr x \<Rightarrow> f x)"

text \<open>
  Modelled from the spec: \<open>Variable.change_order\<close>. The variable is relabelled to the given
  order; every extent follows its axis. An axis that the variable did not have before has the
  extent 1, so that the number of elements stays as it is.
\<close>

definition change_order :: "Variable \<Rightarrow> Order \<Rightarrow> Variable" where
  "change_order v new_order =
     \<lparr>shape = map (\<lambda>a. case shape_dict v a of Some n \<Rightarrow> n | None \<Rightarrow> 1) new_order,
      order = new_order\<rparr>"

section \<open>Pooling2D\<close>

datatype IntOrTuple = OfInt int | OfTuple int int

text \<open>
  Modelled from the spec: \<open>to_tuple\<close> of \<open>webdnn/graph/operators/util.py\<close> (not part of the
  sources at hand): a single integer stands for both spatial directions.
\<close>

fun to_tuple :: "IntOrTuple \<Rightarrow> int \<times> int" where
  "to_tuple (OfInt n) = (n, n)"
| "to_tuple (OfTuple a b) = (a, b)"

datatype Attribute = Tensorwise Axis | Elementwise | Inplace

record Pooling2D =
  name :: "string option"
  ksize :: "int \<times> int"
  stride :: "int \<times> int"
  padding :: "int \<times> int"
  inputs :: "string \<rightharpoonup> Variable"
  outputs :: "string \<rightharpoonup> Variable"
  attributes :: "Attribute list"

definition Pooling2D_init ::
  "string option \<Rightarrow> IntOrTuple \<Rightarrow> IntOrTuple \<Rightarrow> IntOrTuple \<Rightarrow> error + Pooling2D" where
  "Pooling2D_init nm k s p =
     (let self = \<lparr>name = nm, ksize = to_tuple k, stride = to_tuple s, padding = to_tuple p,
                  inputs = Map.empty, outputs = Map.empty, attributes = []\<rparr>
      in if \<not> fst (ksize self) \<ge> fst (stride self) then Inl AssertionError
         else if \<not> snd (ksize self) \<ge> snd (stride self) then Inl AssertionError
         else Inr self)"

definition append_input :: "Pooling2D \<Rightarrow> string \<Rightarrow> Variable \<Rightarrow> Pooling2D" where
  "append_input self nm v = self\<lparr>inputs := (inputs self)(nm \<mapsto> v)\<rparr>"

definition append_output :: "Pooling2D \<Rightarrow> string \<Rightarrow> Variable \<Rightarrow> Pooling2D" where
  "append_output self nm v = self\<lparr>outputs := (outputs self)(nm \<mapsto> v)\<rparr>"

text \<open>Python's \<open>//\<close> and \<open>%\<close>: floor division, failing on a zero divisor.\<close>

definition floordiv :: "int \<Rightarrow> int \<Rightarrow> error + int" where
  "floordiv a b = (if b = 0 then Inl ZeroDivisionError else Inr (a div b))"

definition pymod :: "int \<Rightarrow> int \<Rightarrow> error + int" where
  "pymod a b = (if b = 0 then Inl ZeroDivisionError else Inr (a mod b))"

definition edge_warning :: string where
  "edge_warning = ''[Pooling2D] Performing pooling with parameters which causes edge is ignored. ''
     @ ''Which edge (left / right) is ignored is different on frameworks,''
     @ '' so slightly different result will be generated.''"

text \<open>The loop at the end of \<open>exec\<close>: one \<open>Tensorwise\<close> attribute per axis other than H and W.\<close>

fun add_tensorwise :: "Axis list \<Rightarrow> Attribute list \<Rightarrow> Attribute list" where
  "add_tensorwise [] attrs = attrs"
| "add_tensorwise (axis # axes) attrs =
     (if axis = Axis_H \<or> axis = Axis_W then add_tensorwise axes attrs
      else add_tensorwise axes (attrs @ [Tensorwise axis]))"

text \<open>
  \<open>exec\<close> returns the output variable, the operator as it is afterwards, and the warnings
  written to the console during the call.
\<close>

definition exec :: "Pooling2D \<Rightarrow> error + (Variable \<times> Pooling2D \<times> string list)" where
  "exec self =
    bind_err (getitem (inputs self) ''x'') (\<lambda>x.
    bind_err (getitem (shape_dict x) Axis_N) (\<lambda>N.
    bind_err (getitem (shape_dict x) Axis_H) (\<lambda>H.
    bind_err (floordiv (H + 2 * fst (padding self) + fst (stride self) - fst (ksize self) - 1)
                (fst (stride self))) (\<lambda>qH.
    bind_err (getitem (shape_dict x) Axis_W) (\<lambda>W.
    bind_err (floordiv (W + 2 * snd (padding self) + snd (stride self) - snd (ksize self) - 1)
                (snd (stride self))) (\<lambda>qW.
    bind_err (getitem (shape_dict x) Axis_C) (\<lambda>C2.
    bind_err (pymod (H + 2 * fst (padding self) - fst (ksize self)) (fst (stride self))) (\<lambda>rH.
    bind_err (if rH \<noteq> 0 then Inr True
              else bind_err (pymod (W + 2 * snd (padding self) - snd (ksize self))
                               (snd (stride self))) (\<lambda>rW. Inr (rW \<noteq> 0))) (\<lambda>warn.
    let y = change_order (Variable_new [N, qH + 1, qW + 1, C2] OrderNHWC) (order x)
    in Inr (y,
            (append_output self ''y'' y)
              \<lparr>attributes := add_tensorwise (order x) (attributes self)\<rparr>,
            if warn then [edge_warning] else []))))))))))"

definition call :: "Pooling2D \<Rightarrow> Variable \<Rightarrow> error + (Variable \<times> Pooling2D \<times> string list)" where
  "call self x = exec (append_input self ''x'' x)"

section \<open>The rule list of the WebAssembly backend\<close>

datatype OptimizeRule =
    InsertTranspose
  | ReplaceConvolutionByIm2Col
  | MergeSgemmAndElementwiseMul
  | ConstantFolding
  | ReplaceDeconvolutionByCol2Im
  | ReplaceLinearBySgemm
  | UseEigen
  | ElementwiseKernelFusion
  | UpdateInplaceAttribute
  | DumpGraph string

text \<open>
  \<open>WebassemblyOptimizeRule.__init__\<close>: the list handed to \<open>OptimizeRuleGroup\<close>. The flag
  \<open>flags.DEBUG\<close> is read from the environment and is a parameter here.
\<close>

definition WebassemblyOptimizeRule_init :: "bool \<Rightarrow> OptimizeRule list" where
  "WebassemblyOptimizeRule_init DEBUG =
     (let sub_rules =
        [InsertTranspose,
         ReplaceConvolutionByIm2Col, MergeSgemmAndElementwiseMul, ConstantFolding,
         ReplaceDeconvolutionByCol2Im, MergeSgemmAndElementwiseMul, ConstantFolding,
         ReplaceLinearBySgemm, MergeSgemmAndElementwiseMul, ConstantFolding,
         UseEigen, ElementwiseKernelFusion, UpdateInplaceAttribute]
      in if DEBUG then sub_rules @ [DumpGraph ''cg{count}.dot''] else sub_rules)"

definition is_fusion :: "OptimizeRule \<Rightarrow> bool" where
  "is_fusion r \<longleftrightarrow> r = MergeSgemmAndElementwiseMul \<or> r = ElementwiseKernelFusion"

text \<open>Every element with \<open>P\<close> stands at a smaller index than every element with \<open>Q\<close>.\<close>

definition all_before :: "('a \<Rightarrow> bool) \<Rightarrow> ('a \<Rightarrow> bool) \<Rightarrow> 'a list \<Rightarrow> bool" where
  "all_before P Q rs \<longleftrightarrow>
     (\<forall>i < length rs. \<forall>j < length rs. P (rs ! i) \<and> Q (rs ! j) \<longrightarrow> i < j)"

section \<open>The graph as an arena of nodes\<close>

datatype ChannelModeEnum = R | RGBA

datatype OperatorClass = Sgemm | Tensordot | ConvertRGBAtoR | ConvertRtoRGBA | OtherOperator string

type_synonym var_id = nat
type_synonym op_id = nat

text \<open>
  Modelled from the spec: the class \<open>Operator\<close> (\<open>webdnn/graph/operator.py\<close> is not part of
  the sources at hand): a computation node with named input slots and named output slots, each
  bound to a variable. The slots are kept in the order in which they were bound.
\<close>

record Operator =
  op_class :: OperatorClass
  op_inputs :: "(string \<times> var_id) list"
  op_outputs :: "(string \<times> var_id) list"

text \<open>
  Modelled from the spec: the nodes of one compilation live in an arena and are named by their
  index; an attribute kind is a side table from node identity to attribute value. The first
  \<open>n_variables\<close> variable handles and the first \<open>n_operators\<close> operator handles are in use.
\<close>

record Graph =
  variables :: "var_id \<Rightarrow> Variable"
  n_variables :: nat
  operators :: "op_id \<Rightarrow> Operator"
  n_operators :: nat
  channel_mode :: "var_id \<rightharpoonup> ChannelModeEnum"
  texture_shape :: "var_id \<rightharpoonup> int \<times> int"

text \<open>
  What the accessors \<open>ChannelMode.get\<close> and \<open>TextureShape.get\<close> answer for a variable that
  carries no such attribute is decided in \<open>webdnn/backend/webgl/attributes\<close>, which is not part
  of the sources at hand; it is a parameter of the model.
\<close>

record Defaults =
  untagged_mode :: ChannelModeEnum
  untagged_texture :: "var_id \<Rightarrow> int \<times> int"

text \<open>Modelled from the spec: the typed get/set accessors of the two attribute kinds.\<close>

definition ChannelMode_get :: "Defaults \<Rightarrow> Graph \<Rightarrow> var_id \<Rightarrow> ChannelModeEnum" where
  "ChannelMode_get d g v = (case channel_mode g v of Some m \<Rightarrow> m | None \<Rightarrow> untagged_mode d)"

definition ChannelMode_set :: "Graph \<Rightarrow> var_id \<Rightarrow> ChannelModeEnum \<Rightarrow> Graph" where
  "ChannelMode_set g v m = g\<lparr>channel_mode := (channel_mode g)(v \<mapsto> m)\<rparr>"

definition TextureShape_get :: "Defaults \<Rightarrow> Graph \<Rightarrow> var_id \<Rightarrow> int \<times> int" where
  "TextureShape_get d g v =
     (case texture_shape g v of Some hw \<Rightarrow> hw | None \<Rightarrow> untagged_texture d v)"

definition TextureShape_set :: "Graph \<Rightarrow> var_id \<Rightarrow> int \<Rightarrow> int \<Rightarrow> Graph" where
  "TextureShape_set g v height width = g\<lparr>texture_shape := (texture_shape g)(v \<mapsto> (height, width))\<rparr>"

text \<open>Creating a node takes the next free handle of the arena.\<close>

definition Graph_new_variable :: "Graph \<Rightarrow> Variable \<Rightarrow> var_id \<times> Graph" where
  "Graph_new_variable g var =
     (n_variables g,
      g\<lparr>variables := (variables g)(n_variables g := var), n_variables := Suc (n_variables g)\<rparr>)"

definition Graph_new_operator :: "Graph \<Rightarrow> Operator \<Rightarrow> op_id \<times> Graph" where
  "Graph_new_operator g opr =
     (n_operators g,
      g\<lparr>operators := (operators g)(n_operators g := opr), n_operators := Suc (n_operators g)\<rparr>)"

text \<open>
  Modelled from the spec: \<open>convert_r_to_rgba\<close> and \<open>convert_rgba_to_r\<close>
  (\<open>webdnn/backend/webgl/operators\<close> is not part of the sources at hand). An explicit conversion
  operator reads one mode on its slot \<open>x0\<close> and emits the other mode on its slot \<open>y\<close>; the
  emitted variable has the shape and the order of the one read.
\<close>

definition convert :: "OperatorClass \<Rightarrow> ChannelModeEnum \<Rightarrow> Graph \<Rightarrow> var_id \<Rightarrow> var_id \<times> Graph" where
  "convert cls emitted g x0 =
     (let (y, g1) = Graph_new_variable g
                      (Variable_new (shape (variables g x0)) (order (variables g x0)));
          g2 = ChannelMode_set g1 y emitted;
          (c, g3) = Graph_new_operator g2
                      \<lparr>op_class = cls, op_inputs = [(''x0'', x0)], op_outputs = [(''y'', y)]\<rparr>
      in (y, g3))"

definition convert_r_to_rgba :: "Graph \<Rightarrow> var_id \<Rightarrow> var_id \<times> Graph" where
  "convert_r_to_rgba = convert ConvertRtoRGBA RGBA"

definition convert_rgba_to_r :: "Graph \<Rightarrow> var_id \<Rightarrow> var_id \<times> Graph" where
  "convert_rgba_to_r = convert ConvertRGBAtoR R"

text \<open>
  Modelled from the spec: \<open>Operator.replace_input\<close>, \<open>Operator.replace_output\<close> and
  \<open>Variable.replace\<close>. Replacing swaps the old node for the new one in every referencing slot
  and keeps the slot names.
\<close>

definition subst_var :: "var_id \<Rightarrow> var_id \<Rightarrow> (string \<times> var_id) list \<Rightarrow> (string \<times> var_id) list" where
  "subst_var v_old v_new slots = map (\<lambda>(nm, u). (nm, if u = v_old then v_new else u)) slots"

definition Operator_replace_input :: "Graph \<Rightarrow> op_id \<Rightarrow> var_id \<Rightarrow> var_id \<Rightarrow> Graph" where
  "Operator_replace_input g op v_old v_new =
     g\<lparr>operators := (operators g)
          (op := (operators g op)\<lparr>op_inputs := subst_var v_old v_new (op_inputs (operators g op))\<rparr>)\<rparr>"

definition Operator_replace_output :: "Graph \<Rightarrow> op_id \<Rightarrow> var_id \<Rightarrow> var_id \<Rightarrow> Graph" where
  "Operator_replace_output g op v_old v_new =
     g\<lparr>operators := (operators g)
          (op := (operators g op)\<lparr>op_outputs := subst_var v_old v_new (op_outputs (operators g op))\<rparr>)\<rparr>"

definition Variable_replace :: "Graph \<Rightarrow> var_id \<Rightarrow> var_id \<Rightarrow> Graph" where
  "Variable_replace g v_old v_new =
     g\<lparr>operators := (\<lambda>op. (operators g op)
          \<lparr>op_inputs := subst_var v_old v_new (op_inputs (operators g op)),
           op_outputs := subst_var v_old v_new (op_outputs (operators g op))\<rparr>)\<rparr>"

definition Variable_change_order :: "Graph \<Rightarrow> var_id \<Rightarrow> Order \<Rightarrow> Graph" where
  "Variable_change_order g v ord =
     g\<lparr>variables := (variables g)(v := change_order (variables g v) ord)\<rparr>"

section \<open>InsertChannelModeConversion\<close>

text \<open>
  The module-level helpers \<open>_replace_input\<close>, \<open>_replace_output\<close>, \<open>_replace_input_all\<close> and
  \<open>_replace_output_all\<close>, without the leading underscore. Each returns its flag together
  with the graph as it is afterwards.
\<close>

definition replace_input ::
  "Defaults \<Rightarrow> op_id \<Rightarrow> string \<Rightarrow> ChannelModeEnum \<Rightarrow> Graph \<Rightarrow> error + (bool \<times> Graph)" where
  "replace_input d op var_name target g =
     bind_err (getitem (map_of (op_inputs (operators g op))) var_name) (\<lambda>v.
       if ChannelMode_get d g v = target then Inr (False, g)
       else
         let (v_new, g1) = (if target = RGBA then convert_r_to_rgba g v else convert_rgba_to_r g v);
             g2 = TextureShape_set g1 v_new (fst (TextureShape_get d g1 v))
                                            (snd (TextureShape_get d g1 v));
             g3 = Operator_replace_input g2 op v v_new
         in Inr (True, g3))"

definition replace_output ::
  "Defaults \<Rightarrow> op_id \<Rightarrow> string \<Rightarrow> ChannelModeEnum \<Rightarrow> Graph \<Rightarrow> error + (bool \<times> Graph)" where
  "replace_output d op var_name target g =
     bind_err (getitem (map_of (op_outputs (operators g op))) var_name) (\<lambda>v.
       if ChannelMode_get d g v = target then Inr (False, g)
       else
         let (v_new, g1) = Graph_new_variable g
                             (Variable_new (shape (variables g v)) (order (variables g v)));
             g2 = ChannelMode_set g1 v_new target;
             g3 = Operator_replace_output g2 op v v_new;
             (y, g4) = (if target = RGBA then convert_rgba_to_r g3 v_new
                        else convert_r_to_rgba g3 v_new);
             g5 = Variable_change_order g4 y (order (variables g4 v))
         in Inr (True, Variable_replace g5 y v))"

text \<open>
  \<open>any\<close> over a generator: the calls are made slot by slot, and the first call that
  returns \<open>True\<close> ends the iteration.
\<close>

fun any_replace ::
  "(string \<Rightarrow> Graph \<Rightarrow> error + (bool \<times> Graph)) \<Rightarrow> string list \<Rightarrow> Graph \<Rightarrow> error + (bool \<times> Graph)" where
  "any_replace f [] g = Inr (False, g)"
| "any_replace f (var_name # rest) g =
     bind_err (f var_name g) (\<lambda>(b, g'). if b then Inr (True, g') else any_replace f rest g')"

definition replace_input_all ::
  "Defaults \<Rightarrow> op_id \<Rightarrow> ChannelModeEnum \<Rightarrow> Graph \<Rightarrow> error + (bool \<times> Graph)" where
  "replace_input_all d op target g =
     any_replace (\<lambda>var_name. replace_input d op var_name target)
       (map fst (op_inputs (operators g op))) g"

definition replace_output_all ::
  "Defaults \<Rightarrow> op_id \<Rightarrow> ChannelModeEnum \<Rightarrow> Graph \<Rightarrow> error + (bool \<times> Graph)" where
  "replace_output_all d op target g =
     any_replace (\<lambda>var_name. replace_output d op var_name target)
       (map fst (op_outputs (operators g op))) g"

text \<open>The body of the loop of \<open>optimize\<close> for one operator; the flag is what it ors in.\<close>

definition optimize_op :: "Defaults \<Rightarrow> op_id \<Rightarrow> Graph \<Rightarrow> error + (bool \<times> Graph)" where
  "optimize_op d op g =
     (if op_class (operators g op) = Sgemm \<or> op_class (operators g op) = Tensordot
      then Inr (False, g)
      else if op_class (operators g op) = ConvertRGBAtoR then
        bind_err (replace_input d op ''x0'' RGBA g) (\<lambda>(b1, g1).
        bind_err (replace_output d op ''y'' R g1) (\<lambda>(b2, g2). Inr (b1 \<or> b2, g2)))
      else if op_class (operators g op) = ConvertRtoRGBA then
        bind_err (replace_input d op ''x0'' R g) (\<lambda>(b1, g1).
        bind_err (replace_output d op ''y'' RGBA g1) (\<lambda>(b2, g2). Inr (b1 \<or> b2, g2)))
      else
        bind_err (replace_input_all d op R g) (\<lambda>(b1, g1).
        bind_err (replace_output_all d op R g1) (\<lambda>(b2, g2). Inr (b1 \<or> b2, g2))))"

fun optimize_loop ::
  "Defaults \<Rightarrow> op_id list \<Rightarrow> bool \<Rightarrow> Graph \<Rightarrow> error + (Graph \<times> bool)" where
  "optimize_loop d [] flag_changed g = Inr (g, flag_changed)"
| "optimize_loop d (op # ops) flag_changed g =
     bind_err (optimize_op d op g) (\<lambda>(b, g'). optimize_loop d ops (flag_changed \<or> b) g')"

text \<open>
  \<open>InsertChannelModeConversion.optimize\<close>. The listing \<open>traverse.listup_operators\<close>
  (\<open>webdnn/graph/traverse.py\<close> is not part of the sources at hand) is a parameter; it is
  taken once, before the loop starts.
\<close>

definition optimize ::
  "Defaults \<Rightarrow> (Graph \<Rightarrow> op_id list) \<Rightarrow> Graph \<Rightarrow> error + (Graph \<times> bool)" where
  "optimize d listup_operators graph = optimize_loop d (listup_operators graph) False graph"

section \<open>Notions used to state the properties of the pass\<close>

text \<open>
  The conversion operator that emits the given mode, and the one that reads it.
\<close>

definition conversion_to :: "ChannelModeEnum \<Rightarrow> OperatorClass" where
  "conversion_to target = (if target = RGBA then ConvertRtoRGBA else ConvertRGBAtoR)"

definition conversion_from :: "ChannelModeEnum \<Rightarrow> OperatorClass" where
  "conversion_from target = (if target = RGBA then ConvertRGBAtoR else ConvertRtoRGBA)"

text \<open>
  The graph after \<open>_replace_input\<close> has spliced a conversion in front of the slot that holds
  \<open>v\<close>, and the graph after \<open>_replace_output\<close> has spliced one behind it: the branch of each
  helper that returns \<open>True\<close>, as one expression.
\<close>

definition input_spliced :: "Defaults \<Rightarrow> op_id \<Rightarrow> ChannelModeEnum \<Rightarrow> Graph \<Rightarrow> var_id \<Rightarrow> Graph" where
  "input_spliced d op t g v =
     Operator_replace_input
       (TextureShape_set (snd (convert (conversion_to t) t g v)) (n_variables g)
          (fst (TextureShape_get d g v)) (snd (TextureShape_get d g v)))
       op v (n_variables g)"

definition output_spliced :: "op_id \<Rightarrow> ChannelModeEnum \<Rightarrow> Graph \<Rightarrow> var_id \<Rightarrow> Graph" where
  "output_spliced op t g v =
     (let g3 = Operator_replace_output
                 (ChannelMode_set
                    (snd (Graph_new_variable g
                            (Variable_new (shape (variables g v)) (order (variables g v)))))
                    (n_variables g) t)
                 op v (n_variables g);
          g4 = snd (convert (conversion_from t) (if t = RGBA then R else RGBA) g3 (n_variables g));
          g5 = Variable_change_order g4 (Suc (n_variables g)) (order (variables g4 v))
      in Variable_replace g5 (Suc (n_variables g)) v)"

text \<open>Every slot of the operator is bound to a variable handle in use.\<close>

definition slots_allocated :: "Graph \<Rightarrow> op_id \<Rightarrow> bool" where
  "slots_allocated g op \<longleftrightarrow>
     list_all (\<lambda>s. snd s < n_variables g) (op_inputs (operators g op) @ op_outputs (operators g op))"

text \<open>
  The slot \<open>nm\<close> exists and holds a variable of mode \<open>t\<close>; and the operator's slots carry
  the modes that \<open>optimize\<close> asks of its class.
\<close>

definition slot_mode ::
  "Defaults \<Rightarrow> Graph \<Rightarrow> (string \<times> var_id) list \<Rightarrow> string \<Rightarrow> ChannelModeEnum \<Rightarrow> bool" where
  "slot_mode d g slots nm t \<longleftrightarrow>
     (case map_of slots nm of None \<Rightarrow> False | Some v \<Rightarrow> ChannelMode_get d g v = t)"

definition required_modes_hold :: "Defaults \<Rightarrow> Graph \<Rightarrow> op_id \<Rightarrow> bool" where
  "required_modes_hold d g op \<longleftrightarrow>
     (if op_class (operators g op) = Sgemm \<or> op_class (operators g op) = Tensordot then True
      else if op_class (operators g op) = ConvertRGBAtoR then
        slot_mode d g (op_inputs (operators g op)) ''x0'' RGBA
        \<and> slot_mode d g (op_outputs (operators g op)) ''y'' R
      else if op_class (operators g op) = ConvertRtoRGBA then
        slot_mode d g (op_inputs (operators g op)) ''x0'' R
        \<and> slot_mode d g (op_outputs (operators g op)) ''y'' RGBA
      else
        list_all (\<lambda>s. ChannelMode_get d g (snd s) = R)
          (op_inputs (operators g op) @ op_outputs (operators g op)))"

text \<open>A conversion operator has the two slots that \<open>optimize\<close> looks up by name.\<close>

definition has_conversion_slots :: "Graph \<Rightarrow> op_id \<Rightarrow> bool" where
  "has_conversion_slots g op \<longleftrightarrow>
     (op_class (operators g op) = ConvertRGBAtoR \<or> op_class (operators g op) = ConvertRtoRGBA \<longrightarrow>
        ''x0'' \<in> set (map fst (op_inputs (operators g op)))
        \<and> ''y'' \<in> set (map fst (op_outputs (operators g op))))"

text \<open>
  The operators of \<open>g\<close> are still there in \<open>g'\<close>, with their classes and their slot names.
\<close>

definition same_signatures :: "Graph \<Rightarrow> Graph \<Rightarrow> bool" where
  "same_signatures g g' \<longleftrightarrow>
     n_operators g \<le> n_operators g'
     \<and> (\<forall>op < n_operators g.
          op_class (operators g' op) = op_class (operators g op)
          \<and> map fst (op_inputs (operators g' op)) = map fst (op_inputs (operators g op))
          \<and> map fst (op_outputs (operators g' op)) = map fst (op_outputs (operators g op)))"

text \<open>A step returns \<open>True\<close> when it has added an operator, and otherwise leaves the graph.\<close>

definition reports_insertion :: "Graph \<Rightarrow> bool \<Rightarrow> Graph \<Rightarrow> bool" where
  "reports_insertion g b g' \<longleftrightarrow> (b \<longrightarrow> n_operators g < n_operators g') \<and> (\<not> b \<longrightarrow> g' = g)"

text \<open>
  Slot by slot, \<open>slots'\<close> has the names of \<open>slots\<close>, and each slot holds the variable it held
  or a variable of mode \<open>t\<close>.
\<close>

definition slots_driven ::
  "Defaults \<Rightarrow> Graph \<Rightarrow> ChannelModeEnum \<Rightarrow> (string \<times> var_id) list \<Rightarrow> (string \<times> var_id) list \<Rightarrow> bool" where
  "slots_driven d g' t slots slots' \<longleftrightarrow>
     list_all2 (\<lambda>s s'. fst s' = fst s \<and> (snd s' = snd s \<or> ChannelMode_get d g' (snd s') = t))
       slots slots'"

text \<open>What holds of the operator after the scan of its inputs, and after the scan of its outputs.\<close>

definition in_post :: "Defaults \<Rightarrow> op_id \<Rightarrow> ChannelModeEnum \<Rightarrow> Graph \<Rightarrow> bool \<Rightarrow> Graph \<Rightarrow> bool" where
  "in_post d op t g b g1 \<longleftrightarrow>
     op < n_operators g1 \<and> slots_allocated g1 op
     \<and> op_class (operators g1 op) = op_class (operators g op)
     \<and> op_outputs (operators g1 op) = op_outputs (operators g op)
     \<and> n_variables g \<le> n_variables g1
     \<and> (\<forall>w < n_variables g. ChannelMode_get d g1 w = ChannelMode_get d g w)
     \<and> slots_driven d g1 t (op_inputs (operators g op)) (op_inputs (operators g1 op))
     \<and> (op_inputs (operators g1 op) = op_inputs (operators g op) \<longleftrightarrow> \<not> b)"

definition out_post :: "Defaults \<Rightarrow> op_id \<Rightarrow> ChannelModeEnum \<Rightarrow> Graph \<Rightarrow> bool \<Rightarrow> Graph \<Rightarrow> bool" where
  "out_post d op t g b g2 \<longleftrightarrow>
     op_class (operators g2 op) = op_class (operators g op)
     \<and> op_inputs (operators g2 op) = op_inputs (operators g op)
     \<and> n_variables g \<le> n_variables g2
     \<and> (\<forall>w < n_variables g. ChannelMode_get d g2 w = ChannelMode_get d g w)
     \<and> slots_driven d g2 t (op_outputs (operators g op)) (op_outputs (operators g2 op))
     \<and> (op_outputs (operators g2 op) = op_outputs (operators g op) \<longleftrightarrow> \<not> b)"

section \<open>Sample graphs\<close>

text \<open>
  Defaults for variables without attribute, and a listing of every operator in use, in the
  order of creation.
\<close>

definition d0 :: Defaults where
  "d0 = \<lparr>untagged_mode = R, untagged_texture = (\<lambda>v. (1, 1))\<rparr>"

definition listup_all :: "Graph \<Rightarrow> op_id list" where
  "listup_all g = [0..<n_operators g]"

text \<open>An elementwise addition whose two inputs are both in RGBA mode.\<close>

definition two_rgba_inputs :: Graph where
  "two_rgba_inputs =
     \<lparr>variables = (\<lambda>v. Variable_new [1, 4, 4, 3] OrderNHWC), n_variables = 3,
      operators = (\<lambda>op. \<lparr>op_class = OtherOperator ''ElementwiseAdd'',
                          op_inputs = [(''x0'', 0), (''x1'', 1)], op_outputs = [(''y'', 2)]\<rparr>),
      n_operators = 1,
      channel_mode = [0 \<mapsto> RGBA, 1 \<mapsto> RGBA, 2 \<mapsto> R],
      texture_shape = [0 \<mapsto> (8, 6)]\<rparr>"

text \<open>An operator whose output is in RGBA mode and has a texture shape of its own.\<close>

definition rgba_output :: Graph where
  "rgba_output =
     \<lparr>variables = (\<lambda>v. Variable_new [1, 4, 4, 3] OrderNHWC), n_variables = 2,
      operators = (\<lambda>op. \<lparr>op_class = OtherOperator ''Relu'',
                          op_inputs = [(''x0'', 0)], op_outputs = [(''y'', 1)]\<rparr>),
      n_operators = 1,
      channel_mode = [0 \<mapsto> R, 1 \<mapsto> RGBA],
      texture_shape = [0 \<mapsto> (4, 4), 1 \<mapsto> (2, 2)]\<rparr>"

text \<open>A matrix product in RGBA mode feeding a convolution.\<close>

definition rgba_producer :: Graph where
  "rgba_producer =
     \<lparr>variables = (\<lambda>v. Variable_new [1, 4, 4, 3] OrderNHWC), n_variables = 5,
      operators = (\<lambda>op. \<lparr>op_class = OtherOperator ''Convolution2D'',
                          op_inputs = [(''x'', 2), (''w'', 3)], op_outputs = [(''y'', 4)]\<rparr>)
                  (0 := \<lparr>op_class = Sgemm, op_inputs = [(''A'', 0), (''B'', 1)],
                          op_outputs = [(''C'', 2)]\<rparr>),
      n_operators = 2,
      channel_mode = [0 \<mapsto> R, 1 \<mapsto> R, 2 \<mapsto> RGBA, 3 \<mapsto> R, 4 \<mapsto> R],
      texture_shape = Map.empty\<rparr>"

text \<open>
  Two conversion operators: the first reads R and emits RGBA against its class, the second
  has the modes of its class.
\<close>

definition conversions :: Graph where
  "conversions =
     \<lparr>variables = (\<lambda>v. Variable_new [1, 4, 4, 3] OrderNHWC), n_variables = 4,
      operators = (\<lambda>op. \<lparr>op_class = ConvertRtoRGBA,
                          op_inputs = [(''x0'', 2)], op_outputs = [(''y'', 3)]\<rparr>)
                  (0 := \<lparr>op_class = ConvertRGBAtoR, op_inputs = [(''x0'', 0)],
                          op_outputs = [(''y'', 1)]\<rparr>),
      n_operators = 2,
      channel_mode = [0 \<mapsto> R, 1 \<mapsto> RGBA, 2 \<mapsto> R, 3 \<mapsto> RGBA],
      texture_shape = Map.empty\<rparr>"

section \<open>Properties of Pooling2D\<close>

lemma change_order_shape_dict:
  "a \<in> set ord \<Longrightarrow>
     shape_dict (change_order v ord) a = Some (case shape_dict v a of Some n \<Rightarrow> n | None \<Rightarrow> 1)"
  by (simp add: change_order_def shape_dict_def map_of_zip_map)

lemma change_order_order: "order (change_order v ord) = ord"
  by (simp add: change_order_def)

lemma shape_dict_axis: "shape_dict x a = Some n \<Longrightarrow> a \<in> set (order x)"
  unfolding shape_dict_def by (auto dest!: map_of_SomeD set_zip_leftD)

lemma add_tensorwise_closed:
  "add_tensorwise axes attrs = attrs @ map Tensorwise (filter (\<lambda>a. a \<noteq> Axis_H \<and> a \<noteq> Axis_W) axes)"
  by (induction axes arbitrary: attrs) auto

lemma shape_dict_present:
  "length (shape x) = length (order x) \<Longrightarrow> a \<in> set (order x) \<Longrightarrow> \<exists>n. shape_dict x a = Some n"
  unfolding shape_dict_def using map_of_zip_is_Some [of "order x" "shape x" a] by simp

lemma shape_dict_new_NHWC:
  "shape_dict (Variable_new [n, h, w, c] OrderNHWC) =
     [Axis_N \<mapsto> n, Axis_H \<mapsto> h, Axis_W \<mapsto> w, Axis_C \<mapsto> c]"
  by (auto simp: shape_dict_def Variable_new_def OrderNHWC_def fun_eq_iff)

lemma order_new: "order (Variable_new sh ord) = ord"
  by (simp add: Variable_new_def)

lemma call_unfold:
  assumes N: "shape_dict x Axis_N = Some n" and H: "shape_dict x Axis_H = Some h"
    and W: "shape_dict x Axis_W = Some w" and C: "shape_dict x Axis_C = Some c"
    and s0: "fst (stride self) \<noteq> 0" and s1: "snd (stride self) \<noteq> 0"
  shows "call self x =
     Inr (change_order (Variable_new
            [n, (h + 2 * fst (padding self) + fst (stride self) - fst (ksize self) - 1) div fst (stride self) + 1,
             (w + 2 * snd (padding self) + snd (stride self) - snd (ksize self) - 1) div snd (stride self) + 1,
             c] OrderNHWC) (order x),
          (append_output (append_input self ''x'' x) ''y''
             (change_order (Variable_new
                [n, (h + 2 * fst (padding self) + fst (stride self) - fst (ksize self) - 1) div fst (stride self) + 1,
                 (w + 2 * snd (padding self) + snd (stride self) - snd (ksize self) - 1) div snd (stride self) + 1,
                 c] OrderNHWC) (order x)))
            \<lparr>attributes := add_tensorwise (order x) (attributes self)\<rparr>,
          if (h + 2 * fst (padding self) - fst (ksize self)) mod fst (stride self) \<noteq> 0
             \<or> (w + 2 * snd (padding self) - snd (ksize self)) mod snd (stride self) \<noteq> 0
          then [edge_warning] else [])"
  using assms
  by (simp add: call_def exec_def append_input_def getitem_def bind_err_def floordiv_def pymod_def
      Let_def)

lemma call_Inr_D:
  assumes "call self x = Inr (y, self', w)"
  shows "\<exists>n h wd c. shape_dict x Axis_N = Some n \<and> shape_dict x Axis_H = Some h
     \<and> shape_dict x Axis_W = Some wd \<and> shape_dict x Axis_C = Some c
     \<and> fst (stride self) \<noteq> 0 \<and> snd (stride self) \<noteq> 0"
  using assms
  by (auto simp: call_def exec_def append_input_def getitem_def bind_err_def floordiv_def pymod_def
      split: option.splits if_splits sum.splits)

text \<open>
  Claim C1, as amended. A \<open>Pooling2D\<close> operator with ksize 3, stride 2 and padding 0,
  applied to an input whose extents along H and W are 8, produces an output whose extents along
  H and W are 4: \<open>(8 + 0 + 2 - 3 - 1) // 2 + 1 = 6 // 2 + 1 = 4\<close>. The edge warning is
  written, since \<open>(8 - 3) % 2 \<noteq> 0\<close>.
\<close>

theorem pooling_k3_s2_p0_on_8x8:
  assumes init: "Pooling2D_init nm k s p = Inr self"
    and k: "to_tuple k = (3, 3)" and s: "to_tuple s = (2, 2)" and p: "to_tuple p = (0, 0)"
    and axes: "set (order x) = {Axis_N, Axis_H, Axis_W, Axis_C}"
    and len: "length (shape x) = length (order x)"
    and H: "shape_dict x Axis_H = Some 8" and W: "shape_dict x Axis_W = Some 8"
  shows "\<exists>y self'. call self x = Inr (y, self', [edge_warning])
           \<and> shape_dict y Axis_H = Some 4 \<and> shape_dict y Axis_W = Some 4"
proof -
  from init k s p have par: "ksize self = (3, 3)" "stride self = (2, 2)" "padding self = (0, 0)"
    by (auto simp: Pooling2D_init_def Let_def split: if_splits)
  obtain n where N: "shape_dict x Axis_N = Some n"
    using shape_dict_present [OF len, of Axis_N] axes by auto
  obtain c where C: "shape_dict x Axis_C = Some c"
    using shape_dict_present [OF len, of Axis_C] axes by auto
  let ?y = "change_order (Variable_new [n, 4, 4, c] OrderNHWC) (order x)"
  have "call self x = Inr (?y, (append_output (append_input self ''x'' x) ''y'' ?y)
                 \<lparr>attributes := add_tensorwise (order x) (attributes self)\<rparr>, [edge_warning])"
    using call_unfold [OF N H W C, of self] by (simp add: par)
  moreover have "shape_dict ?y Axis_H = Some 4" "shape_dict ?y Axis_W = Some 4"
    using axes by (simp_all add: change_order_shape_dict shape_dict_new_NHWC)
  ultimately show ?thesis by blast
qed

text \<open>
  Claim C1, as amended, on the operator built by \<open>Pooling2D(None, 3, 2, 0)\<close> and a
  1 x 8 x 8 x 3 input in NHWC order.
\<close>

theorem pooling_k3_s2_p0_on_8x8_witness:
  "\<exists>y self'. call \<lparr>name = None, ksize = (3, 3), stride = (2, 2), padding = (0, 0),
                        inputs = Map.empty, outputs = Map.empty, attributes = []\<rparr>
                   (Variable_new [1, 8, 8, 3] OrderNHWC) = Inr (y, self', [edge_warning])
           \<and> shape_dict y Axis_H = Some 4 \<and> shape_dict y Axis_W = Some 4"
proof -
  have i: "Pooling2D_init None (OfInt 3) (OfInt 2) (OfInt 0) =
      Inr \<lparr>name = None, ksize = (3, 3), stride = (2, 2), padding = (0, 0),
           inputs = Map.empty, outputs = Map.empty, attributes = []\<rparr>"
    by (simp add: Pooling2D_init_def)
  show ?thesis
    by (rule pooling_k3_s2_p0_on_8x8 [OF i])
       (auto simp: Variable_new_def OrderNHWC_def shape_dict_def)
qed

text \<open>
  Claim C1 as it is written (the output extents are 3 and 3) fails: on a 1 x 8 x 8 x 3 input
  in NHWC order the call returns the shape 1 x 4 x 4 x 3.
\<close>

theorem pooling_8x8_is_not_3x3:
  "call \<lparr>name = None, ksize = (3, 3), stride = (2, 2), padding = (0, 0),
         inputs = Map.empty, outputs = Map.empty, attributes = []\<rparr>
        \<lparr>shape = [1, 8, 8, 3], order = [Axis_N, Axis_H, Axis_W, Axis_C]\<rparr>
     = Inr (\<lparr>shape = [1, 4, 4, 3], order = [Axis_N, Axis_H, Axis_W, Axis_C]\<rparr>,
            \<lparr>name = None, ksize = (3, 3), stride = (2, 2), padding = (0, 0),
               inputs = [''x'' \<mapsto> \<lparr>shape = [1, 8, 8, 3], order = [Axis_N, Axis_H, Axis_W, Axis_C]\<rparr>],
               outputs = [''y'' \<mapsto> \<lparr>shape = [1, 4, 4, 3], order = [Axis_N, Axis_H, Axis_W, Axis_C]\<rparr>],
               attributes = [Tensorwise Axis_N, Tensorwise Axis_C]\<rparr>, [edge_warning])
   \<and> shape_dict \<lparr>shape = [1, 4, 4, 3], order = [Axis_N, Axis_H, Axis_W, Axis_C]\<rparr> Axis_H \<noteq> Some 3
   \<and> shape_dict \<lparr>shape = [1, 4, 4, 3], order = [Axis_N, Axis_H, Axis_W, Axis_C]\<rparr> Axis_W \<noteq> Some 3"
  by (simp add: call_def exec_def append_input_def append_output_def getitem_def bind_err_def
        floordiv_def pymod_def shape_dict_def change_order_def Variable_new_def OrderNHWC_def
        Let_def)

text \<open>
  Claim C5. Constructing a \<open>Pooling2D\<close> operator fails if and only if
  \<open>ksize[0] < stride[0]\<close> or \<open>ksize[1] < stride[1]\<close>; otherwise the construction succeeds
  and the operator holds the three parameters as pairs.
\<close>

theorem Pooling2D_init_fails_iff:
  "((\<exists>e. Pooling2D_init nm k s p = Inl e) \<longleftrightarrow>
      fst (to_tuple k) < fst (to_tuple s) \<or> snd (to_tuple k) < snd (to_tuple s))
   \<and> (fst (to_tuple k) \<ge> fst (to_tuple s) \<and> snd (to_tuple k) \<ge> snd (to_tuple s) \<longrightarrow>
        Pooling2D_init nm k s p =
          Inr \<lparr>name = nm, ksize = to_tuple k, stride = to_tuple s, padding = to_tuple p,
               inputs = Map.empty, outputs = Map.empty, attributes = []\<rparr>)"
  by (auto simp: Pooling2D_init_def Let_def)

text \<open>
  Claim C5 on two constructions: kernel 2 with stride (2, 3) is refused, kernel 3 with stride
  (2, 3) and padding 1 is accepted.
\<close>

theorem Pooling2D_init_fails_iff_witness:
  "(\<exists>e. Pooling2D_init (Some ''pool'') (OfInt 2) (OfTuple 2 3) (OfInt 0) = Inl e)
   \<and> Pooling2D_init (Some ''pool'') (OfInt 3) (OfTuple 2 3) (OfInt 1) =
          Inr \<lparr>name = Some ''pool'', ksize = (3, 3), stride = (2, 3), padding = (1, 1),
               inputs = Map.empty, outputs = Map.empty, attributes = []\<rparr>"
  using Pooling2D_init_fails_iff [of "Some ''pool''" "OfInt 2" "OfTuple 2 3" "OfInt 0"]
    Pooling2D_init_fails_iff [of "Some ''pool''" "OfInt 3" "OfTuple 2 3" "OfInt 1"]
  by simp



text \<open>
  Claim C10. The call returns an output variable exactly for the inputs \<open>x\<close> that have an
  extent along each of N, H, W and C, when both strides are non-zero. Whenever it returns the
  output \<open>y\<close>, the order of \<open>y\<close> is the order of \<open>x\<close>, the extents of \<open>y\<close> along N and C
  are those of \<open>x\<close>, and the operator has received one \<open>Tensorwise\<close> attribute for every axis
  of the order of \<open>x\<close> other than H and W, in the order of the axes.
\<close>

theorem exec_keeps_order_batch_channel:
  "((\<exists>r. call self x = Inr r) \<longleftrightarrow>
      shape_dict x Axis_N \<noteq> None \<and> shape_dict x Axis_H \<noteq> None \<and> shape_dict x Axis_W \<noteq> None
      \<and> shape_dict x Axis_C \<noteq> None \<and> fst (stride self) \<noteq> 0 \<and> snd (stride self) \<noteq> 0)
   \<and> (\<forall>y self' log. call self x = Inr (y, self', log) \<longrightarrow>
         order y = order x
       \<and> shape_dict y Axis_N = shape_dict x Axis_N
       \<and> shape_dict y Axis_C = shape_dict x Axis_C
       \<and> outputs self' ''y'' = Some y
       \<and> attributes self' = attributes self
            @ map Tensorwise (filter (\<lambda>a. a \<noteq> Axis_H \<and> a \<noteq> Axis_W) (order x)))"
proof -
  have dom: "(\<exists>r. call self x = Inr r) \<longleftrightarrow>
      shape_dict x Axis_N \<noteq> None \<and> shape_dict x Axis_H \<noteq> None \<and> shape_dict x Axis_W \<noteq> None
      \<and> shape_dict x Axis_C \<noteq> None \<and> fst (stride self) \<noteq> 0 \<and> snd (stride self) \<noteq> 0"
  proof
  assume "\<exists>r. call self x = Inr r"
  then obtain y self' log where "call self x = Inr (y, self', log)" by auto
  from call_Inr_D [OF this]
  show "shape_dict x Axis_N \<noteq> None \<and> shape_dict x Axis_H \<noteq> None \<and> shape_dict x Axis_W \<noteq> None
      \<and> shape_dict x Axis_C \<noteq> None \<and> fst (stride self) \<noteq> 0 \<and> snd (stride self) \<noteq> 0"
    by auto
next
  assume "shape_dict x Axis_N \<noteq> None \<and> shape_dict x Axis_H \<noteq> None \<and> shape_dict x Axis_W \<noteq> None
      \<and> shape_dict x Axis_C \<noteq> None \<and> fst (stride self) \<noteq> 0 \<and> snd (stride self) \<noteq> 0"
  then obtain n h w c where
    N: "shape_dict x Axis_N = Some n" and H: "shape_dict x Axis_H = Some h" and
    W: "shape_dict x Axis_W = Some w" and C: "shape_dict x Axis_C = Some c" and
    s0: "fst (stride self) \<noteq> 0" and s1: "snd (stride self) \<noteq> 0"
    by auto
  show "\<exists>r. call self x = Inr r"
    unfolding call_unfold [OF N H W C s0 s1] by blast
  qed
  have post: "order y = order x
       \<and> shape_dict y Axis_N = shape_dict x Axis_N
       \<and> shape_dict y Axis_C = shape_dict x Axis_C
       \<and> outputs self' ''y'' = Some y
       \<and> attributes self' = attributes self
            @ map Tensorwise (filter (\<lambda>a. a \<noteq> Axis_H \<and> a \<noteq> Axis_W) (order x))"
    if ok: "call self x = Inr (y, self', log)" for y self' log
  proof -
  from call_Inr_D [OF ok] obtain n h w c where
    N: "shape_dict x Axis_N = Some n" and H: "shape_dict x Axis_H = Some h" and
    W: "shape_dict x Axis_W = Some w" and C: "shape_dict x Axis_C = Some c" and
    s0: "fst (stride self) \<noteq> 0" and s1: "snd (stride self) \<noteq> 0"
    by blast
  let ?v = "Variable_new
         [n, (h + 2 * fst (padding self) + fst (stride self) - fst (ksize self) - 1) div fst (stride self) + 1,
          (w + 2 * snd (padding self) + snd (stride self) - snd (ksize self) - 1) div snd (stride self) + 1,
          c] OrderNHWC"
  from ok have y: "y = change_order ?v (order x)"
    and self': "self' = (append_output (append_input self ''x'' x) ''y'' y)
                 \<lparr>attributes := add_tensorwise (order x) (attributes self)\<rparr>"
    unfolding call_unfold [OF N H W C s0 s1] by auto
  have inN: "Axis_N \<in> set (order x)" and inC: "Axis_C \<in> set (order x)"
    using shape_dict_axis [OF N] shape_dict_axis [OF C] by simp_all
  have "shape_dict y Axis_N = Some n" "shape_dict y Axis_C = Some c"
    unfolding y using inN inC by (simp_all add: change_order_shape_dict shape_dict_new_NHWC)
  then show ?thesis
    using N C self' by (simp add: y change_order_order add_tensorwise_closed append_output_def)
  qed
  from dom post show ?thesis by blast
qed

text \<open>
  Claim C10 on a 5 x 2 x 7 x 4 x 4 input in the order N, T, C, H, W: the output keeps the order
  and the extents along N and C, and the operator receives \<open>Tensorwise\<close> for N, T and C.
\<close>

theorem exec_keeps_order_batch_channel_witness:
  "call \<lparr>name = None, ksize = (2, 2), stride = (2, 2), padding = (0, 0),
         inputs = Map.empty, outputs = Map.empty, attributes = [Elementwise]\<rparr>
        \<lparr>shape = [5, 2, 7, 4, 4], order = [Axis_N, Axis_T, Axis_C, Axis_H, Axis_W]\<rparr>
     = Inr (\<lparr>shape = [5, 1, 7, 2, 2], order = [Axis_N, Axis_T, Axis_C, Axis_H, Axis_W]\<rparr>,
            \<lparr>name = None, ksize = (2, 2), stride = (2, 2), padding = (0, 0),
               inputs = [''x'' \<mapsto> \<lparr>shape = [5, 2, 7, 4, 4],
                                   order = [Axis_N, Axis_T, Axis_C, Axis_H, Axis_W]\<rparr>],
               outputs = [''y'' \<mapsto> \<lparr>shape = [5, 1, 7, 2, 2],
                                    order = [Axis_N, Axis_T, Axis_C, Axis_H, Axis_W]\<rparr>],
               attributes = [Elementwise, Tensorwise Axis_N, Tensorwise Axis_T, Tensorwise Axis_C]\<rparr>,
            [])
   \<and> shape_dict \<lparr>shape = [5, 1, 7, 2, 2], order = [Axis_N, Axis_T, Axis_C, Axis_H, Axis_W]\<rparr> Axis_N
       = shape_dict \<lparr>shape = [5, 2, 7, 4, 4], order = [Axis_N, Axis_T, Axis_C, Axis_H, Axis_W]\<rparr> Axis_N
   \<and> shape_dict \<lparr>shape = [5, 1, 7, 2, 2], order = [Axis_N, Axis_T, Axis_C, Axis_H, Axis_W]\<rparr> Axis_C
       = shape_dict \<lparr>shape = [5, 2, 7, 4, 4], order = [Axis_N, Axis_T, Axis_C, Axis_H, Axis_W]\<rparr> Axis_C"
proof -
  have c: "call \<lparr>name = None, ksize = (2, 2), stride = (2, 2), padding = (0, 0),
         inputs = Map.empty, outputs = Map.empty, attributes = [Elementwise]\<rparr>
        \<lparr>shape = [5, 2, 7, 4, 4], order = [Axis_N, Axis_T, Axis_C, Axis_H, Axis_W]\<rparr>
     = Inr (\<lparr>shape = [5, 1, 7, 2, 2], order = [Axis_N, Axis_T, Axis_C, Axis_H, Axis_W]\<rparr>,
            \<lparr>name = None, ksize = (2, 2), stride = (2, 2), padding = (0, 0),
               inputs = [''x'' \<mapsto> \<lparr>shape = [5, 2, 7, 4, 4],
                                   order = [Axis_N, Axis_T, Axis_C, Axis_H, Axis_W]\<rparr>],
               outputs = [''y'' \<mapsto> \<lparr>shape = [5, 1, 7, 2, 2],
                                    order = [Axis_N, Axis_T, Axis_C, Axis_H, Axis_W]\<rparr>],
               attributes = [Elementwise, Tensorwise Axis_N, Tensorwise Axis_T, Tensorwise Axis_C]\<rparr>,
            [])"
    by (simp add: call_def exec_def append_input_def append_output_def getitem_def bind_err_def
        floordiv_def pymod_def shape_dict_def change_order_def Variable_new_def OrderNHWC_def
        Let_def)
  from exec_keeps_order_batch_channel
    [of "\<lparr>name = None, ksize = (2, 2), stride = (2, 2), padding = (0, 0),
         inputs = Map.empty, outputs = Map.empty, attributes = [Elementwise]\<rparr>"
        "\<lparr>shape = [5, 2, 7, 4, 4], order = [Axis_N, Axis_T, Axis_C, Axis_H, Axis_W]\<rparr>"] c
  show ?thesis by simp
qed

section \<open>Properties of the rule list\<close>

lemma all_before_append:
  assumes "\<forall>x \<in> set xs. \<not> Q x" and "\<forall>y \<in> set ys. \<not> P y"
  shows "all_before P Q (xs @ ys)"
  unfolding all_before_def
proof (intro allI impI)
  fix i j assume i: "i < length (xs @ ys)" and j: "j < length (xs @ ys)"
    and PQ: "P ((xs @ ys) ! i) \<and> Q ((xs @ ys) ! j)"
  have "i < length xs"
  proof (rule ccontr)
    assume "\<not> i < length xs"
    then have "(xs @ ys) ! i = ys ! (i - length xs)" "i - length xs < length ys"
      using i by (auto simp: nth_append)
    then have "(xs @ ys) ! i \<in> set ys" by simp
    with assms(2) PQ show False by blast
  qed
  moreover have "\<not> j < length xs"
  proof
    assume "j < length xs"
    then have "(xs @ ys) ! j \<in> set xs" by (simp add: nth_append)
    with assms(1) PQ show False by blast
  qed
  ultimately show "i < j" by simp
qed


text \<open>
  Claim C9. In the rule list of \<open>WebassemblyOptimizeRule\<close> every fusion rule stands before
  \<open>UpdateInplaceAttribute\<close>, \<open>InsertTranspose\<close> stands before every fusion rule, all of them
  are in the list, and a \<open>DumpGraph\<close> rule is in the list if and only if the debug flag is
  set, in which case it is the last element.
\<close>

theorem sub_rules_order:
  "all_before is_fusion (\<lambda>r. r = UpdateInplaceAttribute) (WebassemblyOptimizeRule_init DEBUG)
   \<and> all_before (\<lambda>r. r = InsertTranspose) is_fusion (WebassemblyOptimizeRule_init DEBUG)
   \<and> {InsertTranspose, MergeSgemmAndElementwiseMul, ElementwiseKernelFusion, UpdateInplaceAttribute}
        \<subseteq> set (WebassemblyOptimizeRule_init DEBUG)
   \<and> ((\<exists>f. DumpGraph f \<in> set (WebassemblyOptimizeRule_init DEBUG)) \<longleftrightarrow> DEBUG)
   \<and> (DEBUG \<longrightarrow> last (WebassemblyOptimizeRule_init DEBUG) = DumpGraph ''cg{count}.dot'')"
proof -
  let ?front = "[InsertTranspose,
         ReplaceConvolutionByIm2Col, MergeSgemmAndElementwiseMul, ConstantFolding,
         ReplaceDeconvolutionByCol2Im, MergeSgemmAndElementwiseMul, ConstantFolding,
         ReplaceLinearBySgemm, MergeSgemmAndElementwiseMul, ConstantFolding,
         UseEigen, ElementwiseKernelFusion]"
  let ?tail = "if DEBUG then [DumpGraph ''cg{count}.dot''] else []"
  have split1: "WebassemblyOptimizeRule_init DEBUG = ?front @ (UpdateInplaceAttribute # ?tail)"
    by (simp add: WebassemblyOptimizeRule_init_def Let_def)
  have split2: "WebassemblyOptimizeRule_init DEBUG = [InsertTranspose] @ (tl ?front @ UpdateInplaceAttribute # ?tail)"
    by (simp add: WebassemblyOptimizeRule_init_def Let_def)
  have a: "all_before is_fusion (\<lambda>r. r = UpdateInplaceAttribute) (WebassemblyOptimizeRule_init DEBUG)"
    unfolding split1 by (rule all_before_append) (simp_all add: is_fusion_def)
  have b: "all_before (\<lambda>r. r = InsertTranspose) is_fusion (WebassemblyOptimizeRule_init DEBUG)"
    unfolding split2 by (rule all_before_append) (simp_all add: is_fusion_def)
  have c: "{InsertTranspose, MergeSgemmAndElementwiseMul, ElementwiseKernelFusion, UpdateInplaceAttribute}
        \<subseteq> set (WebassemblyOptimizeRule_init DEBUG)"
    by (cases DEBUG) (simp_all add: WebassemblyOptimizeRule_init_def Let_def)
  have d: "(\<exists>f. DumpGraph f \<in> set (WebassemblyOptimizeRule_init DEBUG)) \<longleftrightarrow> DEBUG"
    by (auto simp: WebassemblyOptimizeRule_init_def Let_def)
  have e: "DEBUG \<longrightarrow> last (WebassemblyOptimizeRule_init DEBUG) = DumpGraph ''cg{count}.dot''"
    by (simp add: WebassemblyOptimizeRule_init_def Let_def)
  from a b c d e show ?thesis by blast
qed

text \<open>
  Claim C9 on both values of the debug flag.
\<close>

theorem sub_rules_order_witness:
  "WebassemblyOptimizeRule_init True ! 11 = ElementwiseKernelFusion
   \<and> WebassemblyOptimizeRule_init True ! 12 = UpdateInplaceAttribute
   \<and> WebassemblyOptimizeRule_init True ! 0 = InsertTranspose
   \<and> all_before is_fusion (\<lambda>r. r = UpdateInplaceAttribute) (WebassemblyOptimizeRule_init True)
   \<and> all_before (\<lambda>r. r = InsertTranspose) is_fusion (WebassemblyOptimizeRule_init True)
   \<and> last (WebassemblyOptimizeRule_init True) = DumpGraph ''cg{count}.dot''
   \<and> DumpGraph ''cg{count}.dot'' \<notin> set (WebassemblyOptimizeRule_init False)"
  using sub_rules_order [of True] sub_rules_order [of False]
  by (simp add: WebassemblyOptimizeRule_init_def Let_def)

section \<open>Properties of InsertChannelModeConversion\<close>

subsection \<open>Projections of the primitive steps\<close>

lemma convert_proj:
  "fst (convert cls m g x) = n_variables g"
  "n_variables (snd (convert cls m g x)) = Suc (n_variables g)"
  "n_operators (snd (convert cls m g x)) = Suc (n_operators g)"
  "variables (snd (convert cls m g x)) =
     (variables g)(n_variables g := Variable_new (shape (variables g x)) (order (variables g x)))"
  "operators (snd (convert cls m g x)) =
     (operators g)(n_operators g :=
        \<lparr>op_class = cls, op_inputs = [(''x0'', x)], op_outputs = [(''y'', n_variables g)]\<rparr>)"
  "channel_mode (snd (convert cls m g x)) = (channel_mode g)(n_variables g \<mapsto> m)"
  "texture_shape (snd (convert cls m g x)) = texture_shape g"
  by (simp_all add: convert_def Graph_new_variable_def Graph_new_operator_def ChannelMode_set_def
      Let_def)

lemma new_variable_proj:
  "fst (Graph_new_variable g var) = n_variables g"
  "n_variables (snd (Graph_new_variable g var)) = Suc (n_variables g)"
  "n_operators (snd (Graph_new_variable g var)) = n_operators g"
  "variables (snd (Graph_new_variable g var)) = (variables g)(n_variables g := var)"
  "operators (snd (Graph_new_variable g var)) = operators g"
  "channel_mode (snd (Graph_new_variable g var)) = channel_mode g"
  "texture_shape (snd (Graph_new_variable g var)) = texture_shape g"
  by (simp_all add: Graph_new_variable_def)

lemma ChannelMode_set_proj:
  "n_variables (ChannelMode_set g v m) = n_variables g"
  "n_operators (ChannelMode_set g v m) = n_operators g"
  "variables (ChannelMode_set g v m) = variables g"
  "operators (ChannelMode_set g v m) = operators g"
  "channel_mode (ChannelMode_set g v m) = (channel_mode g)(v \<mapsto> m)"
  "texture_shape (ChannelMode_set g v m) = texture_shape g"
  by (simp_all add: ChannelMode_set_def)

lemma TextureShape_set_proj:
  "n_variables (TextureShape_set g v h w) = n_variables g"
  "n_operators (TextureShape_set g v h w) = n_operators g"
  "variables (TextureShape_set g v h w) = variables g"
  "operators (TextureShape_set g v h w) = operators g"
  "channel_mode (TextureShape_set g v h w) = channel_mode g"
  "texture_shape (TextureShape_set g v h w) = (texture_shape g)(v \<mapsto> (h, w))"
  by (simp_all add: TextureShape_set_def)

lemma Operator_replace_input_proj:
  "n_variables (Operator_replace_input g op a b) = n_variables g"
  "n_operators (Operator_replace_input g op a b) = n_operators g"
  "variables (Operator_replace_input g op a b) = variables g"
  "operators (Operator_replace_input g op a b) =
     (operators g)(op := (operators g op)\<lparr>op_inputs := subst_var a b (op_inputs (operators g op))\<rparr>)"
  "channel_mode (Operator_replace_input g op a b) = channel_mode g"
  "texture_shape (Operator_replace_input g op a b) = texture_shape g"
  by (simp_all add: Operator_replace_input_def)

lemma Operator_replace_output_proj:
  "n_variables (Operator_replace_output g op a b) = n_variables g"
  "n_operators (Operator_replace_output g op a b) = n_operators g"
  "variables (Operator_replace_output g op a b) = variables g"
  "operators (Operator_replace_output g op a b) =
     (operators g)(op := (operators g op)\<lparr>op_outputs := subst_var a b (op_outputs (operators g op))\<rparr>)"
  "channel_mode (Operator_replace_output g op a b) = channel_mode g"
  "texture_shape (Operator_replace_output g op a b) = texture_shape g"
  by (simp_all add: Operator_replace_output_def)

lemma Variable_replace_proj:
  "n_variables (Variable_replace g a b) = n_variables g"
  "n_operators (Variable_replace g a b) = n_operators g"
  "variables (Variable_replace g a b) = variables g"
  "operators (Variable_replace g a b) op =
     (operators g op)\<lparr>op_inputs := subst_var a b (op_inputs (operators g op)),
                       op_outputs := subst_var a b (op_outputs (operators g op))\<rparr>"
  "channel_mode (Variable_replace g a b) = channel_mode g"
  "texture_shape (Variable_replace g a b) = texture_shape g"
  by (simp_all add: Variable_replace_def)

lemma Variable_change_order_proj:
  "n_variables (Variable_change_order g v ord) = n_variables g"
  "n_operators (Variable_change_order g v ord) = n_operators g"
  "variables (Variable_change_order g v ord) = (variables g)(v := change_order (variables g v) ord)"
  "operators (Variable_change_order g v ord) = operators g"
  "channel_mode (Variable_change_order g v ord) = channel_mode g"
  "texture_shape (Variable_change_order g v ord) = texture_shape g"
  by (simp_all add: Variable_change_order_def)

lemmas prim_proj = convert_proj new_variable_proj ChannelMode_set_proj TextureShape_set_proj
  Operator_replace_input_proj Operator_replace_output_proj Variable_replace_proj
  Variable_change_order_proj

lemma map_of_subst_var:
  "map_of (subst_var a b slots) nm = map_option (\<lambda>u. if u = a then b else u) (map_of slots nm)"
proof (induction slots)
  case Nil
  show ?case by (simp add: subst_var_def)
next
  case (Cons s slots)
  obtain k u where s: "s = (k, u)" by (cases s)
  from Cons show ?case by (simp add: subst_var_def s)
qed

lemma subst_var_absent: "a \<notin> snd ` set slots \<Longrightarrow> subst_var a b slots = slots"
proof (induction slots)
  case Nil
  show ?case by (simp add: subst_var_def)
next
  case (Cons s slots)
  obtain k u where s: "s = (k, u)" by (cases s)
  from Cons.prems have "u \<noteq> a" "a \<notin> snd ` set slots" by (auto simp: s)
  with Cons.IH show ?case by (simp add: subst_var_def s)
qed

lemma map_fst_subst_var: "map fst (subst_var a b slots) = map fst slots"
  by (simp add: subst_var_def split_def)

subsection \<open>What one call of a helper does\<close>

lemma bind_getitem:
  "bind_err (getitem m k) f = (case m k of None \<Rightarrow> Inl KeyError | Some v \<Rightarrow> f v)"
  by (simp add: bind_err_def getitem_def split: option.splits)

lemma replace_input_unfold:
  "replace_input d op nm t g =
     (case map_of (op_inputs (operators g op)) nm of
        None \<Rightarrow> Inl KeyError
      | Some v \<Rightarrow>
          if ChannelMode_get d g v = t then Inr (False, g)
          else Inr (True, input_spliced d op t g v))"
proof (cases "map_of (op_inputs (operators g op)) nm")
  case None
  then show ?thesis by (simp add: replace_input_def bind_getitem)
next
  case (Some v)
  have tex: "TextureShape_get d (snd (convert cls m g v)) v = TextureShape_get d g v" for cls m
    by (simp add: TextureShape_get_def convert_proj)
  show ?thesis
  proof (cases "ChannelMode_get d g v = t")
    case True
    then show ?thesis by (simp add: Some replace_input_def bind_getitem)
  next
    case False
    then show ?thesis
      by (cases t)
         (simp_all only: Some replace_input_def bind_getitem Let_def split_def convert_proj tex
            convert_r_to_rgba_def convert_rgba_to_r_def conversion_to_def option.case
            if_True if_False refl ChannelModeEnum.distinct input_spliced_def)
  qed
qed

lemma replace_output_unfold:
  "replace_output d op nm t g =
     (case map_of (op_outputs (operators g op)) nm of
        None \<Rightarrow> Inl KeyError
      | Some v \<Rightarrow>
          if ChannelMode_get d g v = t then Inr (False, g)
          else Inr (True, output_spliced op t g v))"
proof (cases "map_of (op_outputs (operators g op)) nm")
  case None
  then show ?thesis by (simp add: replace_output_def bind_getitem)
next
  case (Some v)
  have fsts: "fst (Graph_new_variable g var) = n_variables g"
    "fst (convert cls m
       (Operator_replace_output (ChannelMode_set (snd (Graph_new_variable g var)) a t') op b c) x)
       = Suc (n_variables g)" for var cls m a b c x t'
    by (simp_all add: prim_proj)
  show ?thesis
  proof (cases "ChannelMode_get d g v = t")
    case True
    then show ?thesis by (simp add: Some replace_output_def bind_getitem)
  next
    case False
    then show ?thesis
      by (cases t)
         (simp_all only: Some replace_output_def bind_getitem Let_def split_def fsts
            convert_r_to_rgba_def convert_rgba_to_r_def conversion_from_def option.case
            if_True if_False refl ChannelModeEnum.distinct output_spliced_def)
  qed
qed

lemma snd_subst_var: "snd ` set (subst_var a b slots) \<subseteq> insert b (snd ` set slots)"
  by (force simp: subst_var_def)

lemma input_spliced_proj:
  "n_variables (input_spliced d op t g v) = Suc (n_variables g)"
  "n_operators (input_spliced d op t g v) = Suc (n_operators g)"
  "variables (input_spliced d op t g v) =
     (variables g)(n_variables g := Variable_new (shape (variables g v)) (order (variables g v)))"
  "channel_mode (input_spliced d op t g v) = (channel_mode g)(n_variables g \<mapsto> t)"
  "texture_shape (input_spliced d op t g v) = (texture_shape g)(n_variables g \<mapsto> TextureShape_get d g v)"
  by (simp_all add: input_spliced_def prim_proj)

lemma input_spliced_operators:
  assumes "op \<noteq> n_operators g"
  shows "operators (input_spliced d op t g v) op =
           (operators g op)\<lparr>op_inputs := subst_var v (n_variables g) (op_inputs (operators g op))\<rparr>"
    and "operators (input_spliced d op t g v) (n_operators g) =
           \<lparr>op_class = conversion_to t, op_inputs = [(''x0'', v)], op_outputs = [(''y'', n_variables g)]\<rparr>"
    and "op' \<noteq> op \<Longrightarrow> op' \<noteq> n_operators g \<Longrightarrow> operators (input_spliced d op t g v) op' = operators g op'"
  using assms by (simp_all add: input_spliced_def prim_proj)

lemma output_spliced_proj:
  "n_variables (output_spliced op t g v) = Suc (Suc (n_variables g))"
  "n_operators (output_spliced op t g v) = Suc (n_operators g)"
  "channel_mode (output_spliced op t g v) =
     (channel_mode g)(n_variables g \<mapsto> t, Suc (n_variables g) \<mapsto> (if t = RGBA then R else RGBA))"
  "texture_shape (output_spliced op t g v) = texture_shape g"
  "variables (output_spliced op t g v) (n_variables g) =
     Variable_new (shape (variables g v)) (order (variables g v))"
  "u < n_variables g \<Longrightarrow> variables (output_spliced op t g v) u = variables g u"
  by (simp_all add: output_spliced_def prim_proj Let_def)

lemma output_spliced_operators_raw:
  "operators (output_spliced op t g v) op' =
     (((operators g)
         (op := (operators g op)\<lparr>op_outputs := subst_var v (n_variables g) (op_outputs (operators g op))\<rparr>,
          n_operators g := \<lparr>op_class = conversion_from t, op_inputs = [(''x0'', n_variables g)],
                             op_outputs = [(''y'', Suc (n_variables g))]\<rparr>)) op')
       \<lparr>op_inputs := subst_var (Suc (n_variables g)) v (op_inputs
          (((operators g)
         (op := (operators g op)\<lparr>op_outputs := subst_var v (n_variables g) (op_outputs (operators g op))\<rparr>,
          n_operators g := \<lparr>op_class = conversion_from t, op_inputs = [(''x0'', n_variables g)],
                             op_outputs = [(''y'', Suc (n_variables g))]\<rparr>)) op')),
        op_outputs := subst_var (Suc (n_variables g)) v (op_outputs
          (((operators g)
         (op := (operators g op)\<lparr>op_outputs := subst_var v (n_variables g) (op_outputs (operators g op))\<rparr>,
          n_operators g := \<lparr>op_class = conversion_from t, op_inputs = [(''x0'', n_variables g)],
                             op_outputs = [(''y'', Suc (n_variables g))]\<rparr>)) op'))\<rparr>"
  by (simp add: output_spliced_def prim_proj Let_def)

lemma slots_allocated_absent:
  assumes "slots_allocated g op" and "n_variables g \<le> k"
  shows "k \<notin> snd ` set (op_inputs (operators g op))" "k \<notin> snd ` set (op_outputs (operators g op))"
proof -
  from assms(1) have *: "\<forall>s \<in> set (op_inputs (operators g op)) \<union> set (op_outputs (operators g op)).
      snd s < n_variables g"
    by (simp add: slots_allocated_def list_all_iff)
  show "k \<notin> snd ` set (op_inputs (operators g op))"
  proof
    assume "k \<in> snd ` set (op_inputs (operators g op))"
    then obtain s where s: "s \<in> set (op_inputs (operators g op))" "k = snd s" by (rule imageE)
    from * s(1) have "snd s < n_variables g" by simp
    with assms(2) s(2) show False by simp
  qed
  show "k \<notin> snd ` set (op_outputs (operators g op))"
  proof
    assume "k \<in> snd ` set (op_outputs (operators g op))"
    then obtain s where s: "s \<in> set (op_outputs (operators g op))" "k = snd s" by (rule imageE)
    from * s(1) have "snd s < n_variables g" by simp
    with assms(2) s(2) show False by simp
  qed
qed

lemma subst_var_singleton:
  "subst_var a b [(nm, u)] = [(nm, if u = a then b else u)]"
  by (simp add: subst_var_def)

lemma output_spliced_conversion:
  assumes "op \<noteq> n_operators g"
  shows "operators (output_spliced op t g v) (n_operators g) =
           \<lparr>op_class = conversion_from t, op_inputs = [(''x0'', n_variables g)], op_outputs = [(''y'', v)]\<rparr>"
  by (simp add: output_spliced_operators_raw subst_var_singleton)

lemma output_spliced_same_op:
  assumes "op \<noteq> n_operators g" and wf: "slots_allocated g op"
  shows "operators (output_spliced op t g v) op =
           (operators g op)\<lparr>op_outputs := subst_var v (n_variables g) (op_outputs (operators g op))\<rparr>"
proof -
  have a: "subst_var (Suc (n_variables g)) v (op_inputs (operators g op)) = op_inputs (operators g op)"
    by (rule subst_var_absent) (rule slots_allocated_absent [OF wf], simp)
  have "Suc (n_variables g) \<notin> snd ` set (op_outputs (operators g op))"
    by (rule slots_allocated_absent [OF wf]) simp
  then have "Suc (n_variables g) \<notin> snd ` set (subst_var v (n_variables g) (op_outputs (operators g op)))"
    using snd_subst_var [of v "n_variables g" "op_outputs (operators g op)"] by auto
  then have b: "subst_var (Suc (n_variables g)) v (subst_var v (n_variables g) (op_outputs (operators g op)))
      = subst_var v (n_variables g) (op_outputs (operators g op))"
    by (rule subst_var_absent)
  show ?thesis using assms(1) by (simp add: output_spliced_operators_raw a b)
qed

lemma output_spliced_other_op:
  assumes "op' \<noteq> op" and "op' \<noteq> n_operators g" and wf: "slots_allocated g op'"
  shows "operators (output_spliced op t g v) op' = operators g op'"
proof -
  have a: "subst_var (Suc (n_variables g)) v (op_inputs (operators g op')) = op_inputs (operators g op')"
    by (rule subst_var_absent) (rule slots_allocated_absent [OF wf], simp)
  have b: "subst_var (Suc (n_variables g)) v (op_outputs (operators g op')) = op_outputs (operators g op')"
    by (rule subst_var_absent) (rule slots_allocated_absent [OF wf], simp)
  show ?thesis using assms(1,2) by (simp add: output_spliced_operators_raw a b)
qed

lemma output_spliced_names:
  "op_class (operators (output_spliced op t g v) op') =
     (if op' = n_operators g then conversion_from t else op_class (operators g op'))"
  "op' \<noteq> n_operators g \<Longrightarrow>
     map fst (op_inputs (operators (output_spliced op t g v) op')) = map fst (op_inputs (operators g op'))"
  "op' \<noteq> n_operators g \<Longrightarrow>
     map fst (op_outputs (operators (output_spliced op t g v) op')) = map fst (op_outputs (operators g op'))"
  by (simp_all add: output_spliced_operators_raw map_fst_subst_var)

lemma input_spliced_names:
  "op' \<noteq> n_operators g \<Longrightarrow>
     op_class (operators (input_spliced d op t g v) op') = op_class (operators g op')"
  "op' \<noteq> n_operators g \<Longrightarrow>
     map fst (op_inputs (operators (input_spliced d op t g v) op')) = map fst (op_inputs (operators g op'))"
  "op' \<noteq> n_operators g \<Longrightarrow>
     op_outputs (operators (input_spliced d op t g v) op') = op_outputs (operators g op')"
  by (simp_all add: input_spliced_def prim_proj map_fst_subst_var)

lemma replace_input_cases:
  assumes "replace_input d op nm t g = Inr (b, g')"
  shows "(\<not> b \<and> g' = g) \<or>
         (b \<and> (\<exists>v. map_of (op_inputs (operators g op)) nm = Some v \<and> ChannelMode_get d g v \<noteq> t
                 \<and> g' = input_spliced d op t g v))"
  using assms by (auto simp: replace_input_unfold split: option.splits if_splits)

lemma replace_output_cases:
  assumes "replace_output d op nm t g = Inr (b, g')"
  shows "(\<not> b \<and> g' = g) \<or>
         (b \<and> (\<exists>v. map_of (op_outputs (operators g op)) nm = Some v \<and> ChannelMode_get d g v \<noteq> t
                 \<and> g' = output_spliced op t g v))"
  using assms by (auto simp: replace_output_unfold split: option.splits if_splits)

subsection \<open>The flag and the fixed point\<close>

lemma replace_input_inv:
  "replace_input d op nm t g = Inr (b, g') \<Longrightarrow> reports_insertion g b g'"
  using replace_input_cases [of d op nm t g b g']
  by (auto simp: reports_insertion_def input_spliced_proj)

lemma replace_output_inv:
  "replace_output d op nm t g = Inr (b, g') \<Longrightarrow> reports_insertion g b g'"
  using replace_output_cases [of d op nm t g b g']
  by (auto simp: reports_insertion_def output_spliced_proj)

lemma any_replace_inv:
  assumes step: "\<And>nm g b g'. f nm g = Inr (b, g') \<Longrightarrow> reports_insertion g b g'"
  shows "any_replace f nms g = Inr (b, g') \<Longrightarrow> reports_insertion g b g'"
proof (induction nms arbitrary: g)
  case Nil
  then show ?case by (simp add: reports_insertion_def)
next
  case (Cons nm nms)
  from Cons.prems obtain b1 g1 where f: "f nm g = Inr (b1, g1)"
    and rest: "(if b1 then Inr (True, g1) else any_replace f nms g1) = Inr (b, g')"
    by (auto simp: bind_err_def split: sum.splits)
  show ?case
  proof (cases b1)
    case True
    with rest step [OF f] show ?thesis by (auto simp: reports_insertion_def)
  next
    case False
    with step [OF f] have "g1 = g" by (simp add: reports_insertion_def)
    with False rest Cons.IH show ?thesis by simp
  qed
qed

lemma replace_input_all_inv:
  "replace_input_all d op t g = Inr (b, g') \<Longrightarrow> reports_insertion g b g'"
  unfolding replace_input_all_def
  by (rule any_replace_inv [where f = "\<lambda>var_name. replace_input d op var_name t"])
     (rule replace_input_inv)

lemma replace_output_all_inv:
  "replace_output_all d op t g = Inr (b, g') \<Longrightarrow> reports_insertion g b g'"
  unfolding replace_output_all_def
  by (rule any_replace_inv [where f = "\<lambda>var_name. replace_output d op var_name t"])
     (rule replace_output_inv)

lemma bind_pair_inv:
  assumes run: "bind_err (fa g) (\<lambda>(b1, g1). bind_err (fb g1) (\<lambda>(b2, g2). Inr (b1 \<or> b2, g2))) = Inr (b, g')"
    and a: "\<And>g b g'. fa g = Inr (b, g') \<Longrightarrow> reports_insertion g b g'"
    and b: "\<And>g b g'. fb g = Inr (b, g') \<Longrightarrow> reports_insertion g b g'"
  shows "reports_insertion g b g'"
proof -
  from run obtain r1 where r1: "fa g = Inr r1"
    by (cases "fa g") (simp_all add: bind_err_def)
  obtain b1 g1 where p1: "r1 = (b1, g1)" by (cases r1)
  from run have run2: "bind_err (fb g1) (\<lambda>(b2, g2). Inr (b1 \<or> b2, g2)) = Inr (b, g')"
    by (simp add: bind_err_def r1 p1)
  then obtain r2 where r2: "fb g1 = Inr r2"
    by (cases "fb g1") (simp_all add: bind_err_def)
  obtain b2 g2 where p2: "r2 = (b2, g2)" by (cases r2)
  from run2 have 3: "b = (b1 \<or> b2)" and 4: "g' = g2"
    by (simp_all add: bind_err_def r2 p2)
  have 1: "fa g = Inr (b1, g1)" and 2: "fb g1 = Inr (b2, g')"
    by (simp_all add: r1 p1 r2 p2 4)
  from a [OF 1] b [OF 2] show ?thesis
    unfolding 3 reports_insertion_def by auto
qed

lemma optimize_op_inv:
  assumes run: "optimize_op d op g = Inr (b, g')"
  shows "reports_insertion g b g'"
proof -
  consider (skip) "op_class (operators g op) = Sgemm \<or> op_class (operators g op) = Tensordot"
    | (to_r) "op_class (operators g op) = ConvertRGBAtoR"
    | (to_rgba) "op_class (operators g op) = ConvertRtoRGBA"
    | (other) "op_class (operators g op) \<noteq> Sgemm" "op_class (operators g op) \<noteq> Tensordot"
        "op_class (operators g op) \<noteq> ConvertRGBAtoR" "op_class (operators g op) \<noteq> ConvertRtoRGBA"
    by blast
  then show ?thesis
  proof cases
    case skip
    with run show ?thesis by (auto simp: optimize_op_def reports_insertion_def)
  next
    case to_r
    with run have "bind_err (replace_input d op ''x0'' RGBA g) (\<lambda>(b1, g1).
        bind_err (replace_output d op ''y'' R g1) (\<lambda>(b2, g2). Inr (b1 \<or> b2, g2))) = Inr (b, g')"
      by (simp add: optimize_op_def)
    then show ?thesis
      by (rule bind_pair_inv [where fa = "replace_input d op ''x0'' RGBA"
            and fb = "replace_output d op ''y'' R"])
         (erule replace_input_inv, erule replace_output_inv)
  next
    case to_rgba
    with run have "bind_err (replace_input d op ''x0'' R g) (\<lambda>(b1, g1).
        bind_err (replace_output d op ''y'' RGBA g1) (\<lambda>(b2, g2). Inr (b1 \<or> b2, g2))) = Inr (b, g')"
      by (simp add: optimize_op_def)
    then show ?thesis
      by (rule bind_pair_inv [where fa = "replace_input d op ''x0'' R"
            and fb = "replace_output d op ''y'' RGBA"])
         (erule replace_input_inv, erule replace_output_inv)
  next
    case other
    with run have "bind_err (replace_input_all d op R g) (\<lambda>(b1, g1).
        bind_err (replace_output_all d op R g1) (\<lambda>(b2, g2). Inr (b1 \<or> b2, g2))) = Inr (b, g')"
      by (simp add: optimize_op_def)
    then show ?thesis
      by (rule bind_pair_inv [where fa = "replace_input_all d op R"
            and fb = "replace_output_all d op R"])
         (erule replace_input_all_inv, erule replace_output_all_inv)
  qed
qed

lemma optimize_loop_inv:
  "optimize_loop d ops flag g = Inr (g', changed) \<Longrightarrow>
     (changed \<longleftrightarrow> flag \<or> n_operators g < n_operators g') \<and> (\<not> changed \<longrightarrow> g' = g)
     \<and> n_operators g \<le> n_operators g'"
proof (induction ops arbitrary: flag g)
  case Nil
  then show ?case by auto
next
  case (Cons op ops)
  from Cons.prems obtain b1 g1 where 1: "optimize_op d op g = Inr (b1, g1)"
    and 2: "optimize_loop d ops (flag \<or> b1) g1 = Inr (g', changed)"
    by (auto simp: bind_err_def split: sum.splits)
  from optimize_op_inv [OF 1] have s: "b1 \<longrightarrow> n_operators g < n_operators g1" "\<not> b1 \<longrightarrow> g1 = g"
    by (simp_all add: reports_insertion_def)
  from Cons.IH [OF 2] have
    i: "changed \<longleftrightarrow> (flag \<or> b1) \<or> n_operators g1 < n_operators g'"
      "\<not> changed \<longrightarrow> g' = g1" "n_operators g1 \<le> n_operators g'"
    by simp_all
  show ?case
  proof (cases b1)
    case True
    with s i show ?thesis by auto
  next
    case False
    with s have "g1 = g" by simp
    with False i show ?thesis by auto
  qed
qed

lemma replace_input_fix:
  "slot_mode d g (op_inputs (operators g op)) nm t \<Longrightarrow> replace_input d op nm t g = Inr (False, g)"
  by (auto simp: slot_mode_def replace_input_unfold split: option.splits)

lemma replace_output_fix:
  "slot_mode d g (op_outputs (operators g op)) nm t \<Longrightarrow> replace_output d op nm t g = Inr (False, g)"
  by (auto simp: slot_mode_def replace_output_unfold split: option.splits)

lemma any_replace_fix:
  "(\<And>nm. nm \<in> set nms \<Longrightarrow> f nm g = Inr (False, g)) \<Longrightarrow> any_replace f nms g = Inr (False, g)"
  by (induction nms) (simp_all add: bind_err_def)

lemma list_all_slot_mode:
  assumes "list_all (\<lambda>s. ChannelMode_get d g (snd s) = t) slots" and "nm \<in> set (map fst slots)"
  shows "slot_mode d g slots nm t"
proof -
  from assms(2) obtain v where v: "map_of slots nm = Some v"
    by (cases "map_of slots nm") (auto simp: map_of_eq_None_iff)
  then have "(nm, v) \<in> set slots" by (rule map_of_SomeD)
  with assms(1) have "ChannelMode_get d g v = t" by (auto simp: list_all_iff)
  with v show ?thesis by (simp add: slot_mode_def)
qed

lemma optimize_op_fix:
  assumes "required_modes_hold d g op"
  shows "optimize_op d op g = Inr (False, g)"
proof -
  consider (skip) "op_class (operators g op) = Sgemm \<or> op_class (operators g op) = Tensordot"
    | (to_r) "op_class (operators g op) = ConvertRGBAtoR"
    | (to_rgba) "op_class (operators g op) = ConvertRtoRGBA"
    | (other) "op_class (operators g op) \<noteq> Sgemm" "op_class (operators g op) \<noteq> Tensordot"
        "op_class (operators g op) \<noteq> ConvertRGBAtoR" "op_class (operators g op) \<noteq> ConvertRtoRGBA"
    by blast
  then show ?thesis
  proof cases
    case skip
    then show ?thesis by (auto simp: optimize_op_def)
  next
    case to_r
    with assms show ?thesis
      by (simp add: optimize_op_def required_modes_hold_def replace_input_fix replace_output_fix
          bind_err_def)
  next
    case to_rgba
    with assms show ?thesis
      by (simp add: optimize_op_def required_modes_hold_def replace_input_fix replace_output_fix
          bind_err_def)
  next
    case other
    with assms have ins: "list_all (\<lambda>s. ChannelMode_get d g (snd s) = R) (op_inputs (operators g op))"
      and outs: "list_all (\<lambda>s. ChannelMode_get d g (snd s) = R) (op_outputs (operators g op))"
      by (simp_all add: required_modes_hold_def)
    have 1: "replace_input_all d op R g = Inr (False, g)"
      unfolding replace_input_all_def
      by (rule any_replace_fix) (rule replace_input_fix, rule list_all_slot_mode [OF ins])
    have 2: "replace_output_all d op R g = Inr (False, g)"
      unfolding replace_output_all_def
      by (rule any_replace_fix) (rule replace_output_fix, rule list_all_slot_mode [OF outs])
    from other show ?thesis by (simp add: optimize_op_def 1 2 bind_err_def)
  qed
qed

lemma optimize_loop_fix:
  "(\<And>op. op \<in> set ops \<Longrightarrow> required_modes_hold d g op) \<Longrightarrow> optimize_loop d ops flag g = Inr (g, flag)"
  by (induction ops arbitrary: flag) (simp_all add: optimize_op_fix bind_err_def)

subsection \<open>The splice at a slot\<close>

lemma ChannelMode_get_input_spliced:
  "ChannelMode_get d (input_spliced d op t g v) w =
     (if w = n_variables g then t else ChannelMode_get d g w)"
  by (simp add: ChannelMode_get_def input_spliced_proj)

lemma ChannelMode_get_output_spliced:
  "ChannelMode_get d (output_spliced op t g v) w =
     (if w = Suc (n_variables g) then (if t = RGBA then R else RGBA)
      else if w = n_variables g then t else ChannelMode_get d g w)"
  by (simp add: ChannelMode_get_def output_spliced_proj)

lemma map_of_subst_var_hit:
  "map_of slots nm = Some v \<Longrightarrow> map_of (subst_var v b slots) nm = Some b"
  by (simp add: map_of_subst_var)

lemma slot_allocated:
  assumes "slots_allocated g op"
  shows "map_of (op_inputs (operators g op)) nm = Some v \<Longrightarrow> v < n_variables g"
    and "map_of (op_outputs (operators g op)) nm = Some v \<Longrightarrow> v < n_variables g"
proof -
  from assms have *: "\<forall>s \<in> set (op_inputs (operators g op)) \<union> set (op_outputs (operators g op)).
      snd s < n_variables g"
    by (simp add: slots_allocated_def list_all_iff)
  show "v < n_variables g" if "map_of (op_inputs (operators g op)) nm = Some v"
  proof -
    from that have "(nm, v) \<in> set (op_inputs (operators g op))" by (rule map_of_SomeD)
    with * have "snd (nm, v) < n_variables g" by blast
    then show ?thesis by simp
  qed
  show "v < n_variables g" if "map_of (op_outputs (operators g op)) nm = Some v"
  proof -
    from that have "(nm, v) \<in> set (op_outputs (operators g op))" by (rule map_of_SomeD)
    with * have "snd (nm, v) < n_variables g" by blast
    then show ?thesis by simp
  qed
qed

text \<open>
  Claim C3, as amended. When \<open>_replace_input\<close> splices a conversion in front of a slot that
  holds \<open>v\<close>, the slot then holds the new intermediate variable, and this variable has the
  texture shape of \<open>v\<close> set on it. When \<open>_replace_output\<close> splices a conversion behind a slot
  that holds \<open>v\<close>, the new intermediate variable has the shape and the order of \<open>v\<close> and the
  required channel mode, and no texture shape is written: the texture shapes are as they were.
\<close>

theorem texture_shape_on_splice:
  assumes op: "op < n_operators g"
  shows "(map_of (op_inputs (operators g op)) nm = Some v \<and> ChannelMode_get d g v \<noteq> t \<longrightarrow>
          (\<exists>g'. replace_input d op nm t g = Inr (True, g')
             \<and> map_of (op_inputs (operators g' op)) nm = Some (n_variables g)
             \<and> texture_shape g' (n_variables g) = Some (TextureShape_get d g v)
             \<and> TextureShape_get d g' (n_variables g) = TextureShape_get d g v))
       \<and> (map_of (op_outputs (operators g op)) nm = Some v \<and> ChannelMode_get d g v \<noteq> t \<longrightarrow>
          (\<exists>g'. replace_output d op nm t g = Inr (True, g')
             \<and> variables g' (n_variables g) = Variable_new (shape (variables g v)) (order (variables g v))
             \<and> ChannelMode_get d g' (n_variables g) = t
             \<and> texture_shape g' = texture_shape g))"
proof (intro conjI impI)
  assume a: "map_of (op_inputs (operators g op)) nm = Some v \<and> ChannelMode_get d g v \<noteq> t"
  from op have ne: "op \<noteq> n_operators g" by simp
  let ?g' = "input_spliced d op t g v"
  from a have "replace_input d op nm t g = Inr (True, ?g')"
    by (simp add: replace_input_unfold)
  moreover from a have "map_of (op_inputs (operators ?g' op)) nm = Some (n_variables g)"
    by (simp add: input_spliced_operators(1) [OF ne] map_of_subst_var_hit)
  moreover have "texture_shape ?g' (n_variables g) = Some (TextureShape_get d g v)"
    by (simp add: input_spliced_proj)
  moreover have "TextureShape_get d ?g' (n_variables g) = TextureShape_get d g v"
    by (simp add: TextureShape_get_def [of d ?g'] input_spliced_proj)
  ultimately show "\<exists>g'. replace_input d op nm t g = Inr (True, g')
             \<and> map_of (op_inputs (operators g' op)) nm = Some (n_variables g)
             \<and> texture_shape g' (n_variables g) = Some (TextureShape_get d g v)
             \<and> TextureShape_get d g' (n_variables g) = TextureShape_get d g v"
    by blast
next
  assume a: "map_of (op_outputs (operators g op)) nm = Some v \<and> ChannelMode_get d g v \<noteq> t"
  let ?g' = "output_spliced op t g v"
  from a have "replace_output d op nm t g = Inr (True, ?g')"
    by (simp add: replace_output_unfold)
  moreover have "variables ?g' (n_variables g) = Variable_new (shape (variables g v)) (order (variables g v))"
    by (simp add: output_spliced_proj)
  moreover have "ChannelMode_get d ?g' (n_variables g) = t"
    by (simp add: ChannelMode_get_output_spliced)
  moreover have "texture_shape ?g' = texture_shape g"
    by (simp add: output_spliced_proj)
  ultimately show "\<exists>g'. replace_output d op nm t g = Inr (True, g')
             \<and> variables g' (n_variables g) = Variable_new (shape (variables g v)) (order (variables g v))
             \<and> ChannelMode_get d g' (n_variables g) = t
             \<and> texture_shape g' = texture_shape g"
    by blast
qed

text \<open>
  Claim C7. Let the output slot \<open>nm\<close> of an operator hold \<open>v\<close>, in a mode other than the
  required one, in a graph whose slots are all bound to variables in use. Then
  \<open>_replace_output\<close> returns \<open>True\<close>, and afterwards: \<open>v\<close> is the variable it was, with its
  shape, its order and its channel mode; the slot holds a fresh variable with the shape and
  order of \<open>v\<close> and the required mode; exactly one operator has been added, the conversion
  that reads the fresh variable on \<open>x0\<close> and emits \<open>v\<close> on \<open>y\<close>; no operator has another
  input than before, and every other operator is as it was.
\<close>

theorem replace_output_keeps_original:
  assumes slot: "map_of (op_outputs (operators g op)) nm = Some v"
    and mode: "ChannelMode_get d g v \<noteq> t"
    and op: "op < n_operators g"
    and wf: "\<forall>op' < n_operators g. slots_allocated g op'"
  shows "\<exists>g'. replace_output d op nm t g = Inr (True, g')
     \<and> variables g' v = variables g v
     \<and> ChannelMode_get d g' v = ChannelMode_get d g v
     \<and> map_of (op_outputs (operators g' op)) nm = Some (n_variables g)
     \<and> variables g' (n_variables g) = Variable_new (shape (variables g v)) (order (variables g v))
     \<and> ChannelMode_get d g' (n_variables g) = t
     \<and> n_operators g' = Suc (n_operators g)
     \<and> operators g' (n_operators g) =
          \<lparr>op_class = conversion_from t, op_inputs = [(''x0'', n_variables g)],
           op_outputs = [(''y'', v)]\<rparr>
     \<and> (\<forall>op' < n_operators g. op_inputs (operators g' op') = op_inputs (operators g op'))
     \<and> (\<forall>op' < n_operators g. op' \<noteq> op \<longrightarrow> operators g' op' = operators g op')"
proof -
  let ?g' = "output_spliced op t g v"
  from op have ne: "op \<noteq> n_operators g" by simp
  from op wf have wfop: "slots_allocated g op" by simp
  from slot_allocated(2) [OF wfop slot] have v: "v < n_variables g" .
  have 1: "replace_output d op nm t g = Inr (True, ?g')"
    using slot mode by (simp add: replace_output_unfold)
  have 2: "variables ?g' v = variables g v"
    using v by (simp add: output_spliced_proj)
  have 3: "ChannelMode_get d ?g' v = ChannelMode_get d g v"
    using v by (simp add: ChannelMode_get_output_spliced)
  have 4: "map_of (op_outputs (operators ?g' op)) nm = Some (n_variables g)"
    using slot by (simp add: output_spliced_same_op [OF ne wfop] map_of_subst_var_hit)
  have 5: "variables ?g' (n_variables g) = Variable_new (shape (variables g v)) (order (variables g v))"
    by (simp add: output_spliced_proj)
  have 6: "ChannelMode_get d ?g' (n_variables g) = t"
    by (simp add: ChannelMode_get_output_spliced)
  have 7: "n_operators ?g' = Suc (n_operators g)"
    by (simp add: output_spliced_proj)
  have 8: "operators ?g' (n_operators g) =
          \<lparr>op_class = conversion_from t, op_inputs = [(''x0'', n_variables g)],
           op_outputs = [(''y'', v)]\<rparr>"
    by (rule output_spliced_conversion [OF ne])
  have 9: "op_inputs (operators ?g' op') = op_inputs (operators g op')" if "op' < n_operators g" for op'
  proof (cases "op' = op")
    case True
    then show ?thesis by (simp add: output_spliced_same_op [OF ne wfop])
  next
    case False
    from that wf have "slots_allocated g op'" by simp
    with False that show ?thesis by (simp add: output_spliced_other_op)
  qed
  have 10: "operators ?g' op' = operators g op'" if "op' < n_operators g" "op' \<noteq> op" for op'
  proof -
    from that wf have "slots_allocated g op'" by simp
    with that show ?thesis by (simp add: output_spliced_other_op)
  qed
  from 1 2 3 4 5 6 7 8 9 10 show ?thesis by blast
qed

subsection \<open>The pass on the sample graphs\<close>

lemma listup_all_1: "n_operators g = 1 \<Longrightarrow> listup_all g = [0]"
  by (simp add: listup_all_def)

lemma listup_all_2: "n_operators g = 2 \<Longrightarrow> listup_all g = [0, 1]"
  by (simp add: listup_all_def eval_nat_numeral)

lemma listup_all_3: "n_operators g = 3 \<Longrightarrow> listup_all g = [0, 1, 2]"
  by (simp add: listup_all_def eval_nat_numeral)

lemma input_spliced_operators_raw:
  "operators (input_spliced d op t g v) =
     ((operators g)(n_operators g :=
         \<lparr>op_class = conversion_to t, op_inputs = [(''x0'', v)], op_outputs = [(''y'', n_variables g)]\<rparr>))
     (op := (((operators g)(n_operators g :=
         \<lparr>op_class = conversion_to t, op_inputs = [(''x0'', v)], op_outputs = [(''y'', n_variables g)]\<rparr>)) op)
        \<lparr>op_inputs := subst_var v (n_variables g) (op_inputs (((operators g)(n_operators g :=
         \<lparr>op_class = conversion_to t, op_inputs = [(''x0'', v)], op_outputs = [(''y'', n_variables g)]\<rparr>)) op))\<rparr>)"
  by (simp add: input_spliced_def prim_proj)

lemmas pass_eval = optimize_op_def replace_input_all_def replace_output_all_def
  replace_input_unfold replace_output_unfold bind_err_def ChannelMode_get_def TextureShape_get_def
  input_spliced_proj input_spliced_operators_raw output_spliced_proj output_spliced_operators_raw
  conversion_to_def conversion_from_def subst_var_def d0_def

lemma two_rgba_inputs_run:
  "optimize d0 listup_all two_rgba_inputs = Inr (input_spliced d0 0 R two_rgba_inputs 0, True)"
proof -
  have l: "listup_all two_rgba_inputs = [0]"
    by (rule listup_all_1) (simp add: two_rgba_inputs_def)
  show ?thesis
    unfolding optimize_def l
    by (simp add: pass_eval two_rgba_inputs_def)
qed

text \<open>
  Claim C2, on an elementwise addition whose input slots \<open>x0\<close> and \<open>x1\<close> both hold a variable
  in RGBA mode. One invocation of \<open>optimize\<close> returns \<open>changed = True\<close> and inserts one
  conversion only: the slot \<open>x0\<close> then holds the new variable 3 in R mode, fed by the
  operator \<open>ConvertRGBAtoR\<close>, and the slot \<open>x1\<close> still holds the variable 1 in RGBA mode,
  with no conversion in front of it.
\<close>

theorem any_stops_at_first_splice:
  "\<not> isl (optimize d0 listup_all two_rgba_inputs)
   \<and> snd (projr (optimize d0 listup_all two_rgba_inputs))
   \<and> op_class (operators two_rgba_inputs 0) = OtherOperator ''ElementwiseAdd''
   \<and> op_inputs (operators two_rgba_inputs 0) = [(''x0'', 0), (''x1'', 1)]
   \<and> ChannelMode_get d0 two_rgba_inputs 0 = RGBA
   \<and> ChannelMode_get d0 two_rgba_inputs 1 = RGBA
   \<and> op_inputs (operators (fst (projr (optimize d0 listup_all two_rgba_inputs))) 0)
        = [(''x0'', 3), (''x1'', 1)]
   \<and> ChannelMode_get d0 (fst (projr (optimize d0 listup_all two_rgba_inputs))) 3 = R
   \<and> ChannelMode_get d0 (fst (projr (optimize d0 listup_all two_rgba_inputs))) 1 = RGBA
   \<and> n_operators (fst (projr (optimize d0 listup_all two_rgba_inputs))) = 2
   \<and> operators (fst (projr (optimize d0 listup_all two_rgba_inputs))) 1
        = \<lparr>op_class = ConvertRGBAtoR, op_inputs = [(''x0'', 0)], op_outputs = [(''y'', 3)]\<rparr>"
  unfolding two_rgba_inputs_run
  by (simp add: pass_eval two_rgba_inputs_def)

text \<open>
  Claim C3 as it is written fails on the output side. The slot \<open>y\<close> holds the variable 1 in
  RGBA mode with the texture shape (2, 2). After the splice towards R the slot holds the new
  intermediate variable 2, which carries no texture shape at all, so that the accessor
  answers the default for it and not the shape of the original.
\<close>

theorem output_splice_sets_no_texture_shape:
  "\<not> isl (replace_output d0 0 ''y'' R rgba_output)
   \<and> fst (projr (replace_output d0 0 ''y'' R rgba_output))
   \<and> map_of (op_outputs (operators rgba_output 0)) ''y'' = Some 1
   \<and> texture_shape rgba_output 1 = Some (2, 2)
   \<and> map_of (op_outputs (operators (snd (projr (replace_output d0 0 ''y'' R rgba_output))) 0)) ''y''
        = Some 2
   \<and> operators (snd (projr (replace_output d0 0 ''y'' R rgba_output))) 1
        = \<lparr>op_class = ConvertRtoRGBA, op_inputs = [(''x0'', 2)], op_outputs = [(''y'', 1)]\<rparr>
   \<and> texture_shape (snd (projr (replace_output d0 0 ''y'' R rgba_output))) 2 = None
   \<and> TextureShape_get d0 (snd (projr (replace_output d0 0 ''y'' R rgba_output))) 2 = (1, 1)
   \<and> TextureShape_get d0 (snd (projr (replace_output d0 0 ''y'' R rgba_output))) 2
        \<noteq> TextureShape_get d0 rgba_output 1"
  by (simp add: pass_eval rgba_output_def)

text \<open>
  Claim C3, as amended, on the input slot \<open>x0\<close> of the addition (the original has the texture
  shape (8, 6)) and on the output slot \<open>y\<close> of the operator with an RGBA output.
\<close>

theorem texture_shape_on_splice_witness:
  "(\<exists>g'. replace_input d0 0 ''x0'' R two_rgba_inputs = Inr (True, g')
         \<and> map_of (op_inputs (operators g' 0)) ''x0'' = Some 3
         \<and> texture_shape g' 3 = Some (8, 6)
         \<and> TextureShape_get d0 g' 3 = (8, 6))
   \<and> (\<exists>g'. replace_output d0 0 ''y'' R rgba_output = Inr (True, g')
         \<and> variables g' 2 = Variable_new [1, 4, 4, 3] OrderNHWC
         \<and> ChannelMode_get d0 g' 2 = R
         \<and> texture_shape g' = [0 \<mapsto> (4, 4), 1 \<mapsto> (2, 2)])"
  using texture_shape_on_splice [of 0 two_rgba_inputs "''x0''" 0 d0 R]
    texture_shape_on_splice [of 0 rgba_output "''y''" 1 d0 R]
  by (simp add: two_rgba_inputs_def rgba_output_def ChannelMode_get_def TextureShape_get_def d0_def
      Variable_new_def)

text \<open>
  Claim C7 on the operator with an RGBA output.
\<close>

theorem replace_output_keeps_original_witness:
  "\<exists>g'. replace_output d0 0 ''y'' R rgba_output = Inr (True, g')
     \<and> variables g' 1 = variables rgba_output 1
     \<and> ChannelMode_get d0 g' 1 = RGBA
     \<and> map_of (op_outputs (operators g' 0)) ''y'' = Some 2
     \<and> variables g' 2 = Variable_new [1, 4, 4, 3] OrderNHWC
     \<and> ChannelMode_get d0 g' 2 = R
     \<and> n_operators g' = 2
     \<and> operators g' 1 = \<lparr>op_class = ConvertRtoRGBA, op_inputs = [(''x0'', 2)],
                            op_outputs = [(''y'', 1)]\<rparr>
     \<and> op_inputs (operators g' 0) = [(''x0'', 0)]"
  using replace_output_keeps_original [of rgba_output 0 "''y''" 1 d0 R]
  by (simp add: rgba_output_def ChannelMode_get_def d0_def slots_allocated_def conversion_from_def
      Variable_new_def numeral_2_eq_2)

subsection \<open>The pass returns\<close>

lemma same_signatures_refl: "same_signatures g g"
  by (simp add: same_signatures_def)

lemma same_signatures_trans:
  "same_signatures g g1 \<Longrightarrow> same_signatures g1 g2 \<Longrightarrow> same_signatures g g2"
proof -
  assume a: "same_signatures g g1" and b: "same_signatures g1 g2"
  from a b have le: "n_operators g \<le> n_operators g2" by (simp add: same_signatures_def)
  have "op_class (operators g2 op) = op_class (operators g op)
          \<and> map fst (op_inputs (operators g2 op)) = map fst (op_inputs (operators g op))
          \<and> map fst (op_outputs (operators g2 op)) = map fst (op_outputs (operators g op))"
    if "op < n_operators g" for op
  proof -
    from a that have 1: "op_class (operators g1 op) = op_class (operators g op)
          \<and> map fst (op_inputs (operators g1 op)) = map fst (op_inputs (operators g op))
          \<and> map fst (op_outputs (operators g1 op)) = map fst (op_outputs (operators g op))"
      and "op < n_operators g1"
      by (simp_all add: same_signatures_def)
    with b have "op_class (operators g2 op) = op_class (operators g1 op)
          \<and> map fst (op_inputs (operators g2 op)) = map fst (op_inputs (operators g1 op))
          \<and> map fst (op_outputs (operators g2 op)) = map fst (op_outputs (operators g1 op))"
      by (simp add: same_signatures_def)
    with 1 show ?thesis by simp
  qed
  with le show ?thesis by (simp add: same_signatures_def)
qed

lemma same_signatures_input_spliced: "same_signatures g (input_spliced d op t g v)"
  unfolding same_signatures_def
  by (simp add: input_spliced_proj input_spliced_names)

lemma same_signatures_output_spliced: "same_signatures g (output_spliced op t g v)"
  unfolding same_signatures_def
  by (simp add: output_spliced_proj output_spliced_names)

lemma replace_input_total:
  assumes "nm \<in> set (map fst (op_inputs (operators g op)))"
  shows "\<exists>b g'. replace_input d op nm t g = Inr (b, g') \<and> (\<not> b \<longrightarrow> g' = g) \<and> same_signatures g g'"
proof -
  from assms obtain v where v: "map_of (op_inputs (operators g op)) nm = Some v"
    by (cases "map_of (op_inputs (operators g op)) nm") (auto simp: map_of_eq_None_iff)
  show ?thesis
  proof (cases "ChannelMode_get d g v = t")
    case True
    then have "replace_input d op nm t g = Inr (False, g)"
      by (simp add: replace_input_unfold v)
    then show ?thesis using same_signatures_refl by blast
  next
    case False
    then have "replace_input d op nm t g = Inr (True, input_spliced d op t g v)"
      by (simp add: replace_input_unfold v)
    then show ?thesis using same_signatures_input_spliced by blast
  qed
qed

lemma replace_output_total:
  assumes "nm \<in> set (map fst (op_outputs (operators g op)))"
  shows "\<exists>b g'. replace_output d op nm t g = Inr (b, g') \<and> (\<not> b \<longrightarrow> g' = g) \<and> same_signatures g g'"
proof -
  from assms obtain v where v: "map_of (op_outputs (operators g op)) nm = Some v"
    by (cases "map_of (op_outputs (operators g op)) nm") (auto simp: map_of_eq_None_iff)
  show ?thesis
  proof (cases "ChannelMode_get d g v = t")
    case True
    then have "replace_output d op nm t g = Inr (False, g)"
      by (simp add: replace_output_unfold v)
    then show ?thesis using same_signatures_refl by blast
  next
    case False
    then have "replace_output d op nm t g = Inr (True, output_spliced op t g v)"
      by (simp add: replace_output_unfold v)
    then show ?thesis using same_signatures_output_spliced by blast
  qed
qed

lemma any_replace_total:
  assumes step: "\<And>nm. nm \<in> set nms \<Longrightarrow> \<exists>b g'. f nm g = Inr (b, g') \<and> (\<not> b \<longrightarrow> g' = g) \<and> P g'"
    and base: "P g"
  shows "\<exists>b g'. any_replace f nms g = Inr (b, g') \<and> P g'"
  using step
proof (induction nms)
  case Nil
  have "any_replace f [] g = Inr (False, g)" by simp
  with base show ?case by blast
next
  case (Cons nm nms)
  from Cons.prems [of nm] obtain b1 g1 where f: "f nm g = Inr (b1, g1)" "\<not> b1 \<longrightarrow> g1 = g" "P g1"
    by auto
  show ?case
  proof (cases b1)
    case True
    with f have "any_replace f (nm # nms) g = Inr (True, g1)" by (simp add: bind_err_def)
    with f show ?thesis by blast
  next
    case False
    with f have "g1 = g" by simp
    moreover have "\<exists>b g'. any_replace f nms g = Inr (b, g') \<and> P g'"
      by (rule Cons.IH) (rule Cons.prems, simp)
    ultimately show ?thesis using f False by (simp add: bind_err_def)
  qed
qed

lemma replace_input_all_total:
  "\<exists>b g'. replace_input_all d op t g = Inr (b, g') \<and> same_signatures g g'"
  unfolding replace_input_all_def
  by (rule any_replace_total [where f = "\<lambda>var_name. replace_input d op var_name t"])
     (rule replace_input_total, assumption, rule same_signatures_refl)

lemma replace_output_all_total:
  "\<exists>b g'. replace_output_all d op t g = Inr (b, g') \<and> same_signatures g g'"
  unfolding replace_output_all_def
  by (rule any_replace_total [where f = "\<lambda>var_name. replace_output d op var_name t"])
     (rule replace_output_total, assumption, rule same_signatures_refl)

lemma convert_pair_total:
  assumes op: "op < n_operators g"
    and x0: "''x0'' \<in> set (map fst (op_inputs (operators g op)))"
    and y: "''y'' \<in> set (map fst (op_outputs (operators g op)))"
  shows "\<exists>b g'. bind_err (replace_input d op ''x0'' t1 g) (\<lambda>(b1, g1).
           bind_err (replace_output d op ''y'' t2 g1) (\<lambda>(b2, g2). Inr (b1 \<or> b2, g2))) = Inr (b, g')
         \<and> same_signatures g g'"
proof -
  from replace_input_total [OF x0] obtain b1 g1 where
    1: "replace_input d op ''x0'' t1 g = Inr (b1, g1)" and s1: "same_signatures g g1"
    by blast
  from s1 op have "map fst (op_outputs (operators g1 op)) = map fst (op_outputs (operators g op))"
    by (simp add: same_signatures_def)
  with y have "''y'' \<in> set (map fst (op_outputs (operators g1 op)))" by simp
  from replace_output_total [OF this] obtain b2 g2 where
    2: "replace_output d op ''y'' t2 g1 = Inr (b2, g2)" and s2: "same_signatures g1 g2"
    by blast
  from same_signatures_trans [OF s1 s2] show ?thesis
    by (simp add: 1 2 bind_err_def)
qed

lemma optimize_op_total:
  assumes op: "op < n_operators g" and slots: "has_conversion_slots g op"
  shows "\<exists>b g'. optimize_op d op g = Inr (b, g') \<and> same_signatures g g'"
proof -
  consider (skip) "op_class (operators g op) = Sgemm \<or> op_class (operators g op) = Tensordot"
    | (to_r) "op_class (operators g op) = ConvertRGBAtoR"
    | (to_rgba) "op_class (operators g op) = ConvertRtoRGBA"
    | (other) "op_class (operators g op) \<noteq> Sgemm" "op_class (operators g op) \<noteq> Tensordot"
        "op_class (operators g op) \<noteq> ConvertRGBAtoR" "op_class (operators g op) \<noteq> ConvertRtoRGBA"
    by blast
  then show ?thesis
  proof cases
    case skip
    then show ?thesis by (auto simp: optimize_op_def same_signatures_refl)
  next
    case to_r
    with slots have "''x0'' \<in> set (map fst (op_inputs (operators g op)))"
      "''y'' \<in> set (map fst (op_outputs (operators g op)))"
      by (simp_all add: has_conversion_slots_def)
    from convert_pair_total [OF op this, of d RGBA R] to_r show ?thesis
      by (simp add: optimize_op_def)
  next
    case to_rgba
    with slots have "''x0'' \<in> set (map fst (op_inputs (operators g op)))"
      "''y'' \<in> set (map fst (op_outputs (operators g op)))"
      by (simp_all add: has_conversion_slots_def)
    from convert_pair_total [OF op this, of d R RGBA] to_rgba show ?thesis
      by (simp add: optimize_op_def)
  next
    case other
    from replace_input_all_total [of d op R g] obtain b1 g1 where
      1: "replace_input_all d op R g = Inr (b1, g1)" and s1: "same_signatures g g1"
      by blast
    from replace_output_all_total [of d op R g1] obtain b2 g2 where
      2: "replace_output_all d op R g1 = Inr (b2, g2)" and s2: "same_signatures g1 g2"
      by blast
    from same_signatures_trans [OF s1 s2] other show ?thesis
      by (simp add: optimize_op_def 1 2 bind_err_def)
  qed
qed

lemma has_conversion_slots_kept:
  "same_signatures g g' \<Longrightarrow> op < n_operators g \<Longrightarrow> has_conversion_slots g op \<Longrightarrow>
     op < n_operators g' \<and> has_conversion_slots g' op"
  by (simp add: same_signatures_def has_conversion_slots_def)

lemma optimize_loop_total:
  "(\<And>op. op \<in> set ops \<Longrightarrow> op < n_operators g \<and> has_conversion_slots g op) \<Longrightarrow>
     \<exists>g' changed. optimize_loop d ops flag g = Inr (g', changed)"
proof (induction ops arbitrary: flag g)
  case Nil
  show ?case by simp
next
  case (Cons op ops)
  from Cons.prems [of op] have "op < n_operators g" "has_conversion_slots g op" by simp_all
  from optimize_op_total [OF this] obtain b1 g1 where
    1: "optimize_op d op g = Inr (b1, g1)" and s: "same_signatures g g1"
    by blast
  have "\<exists>g' changed. optimize_loop d ops (flag \<or> b1) g1 = Inr (g', changed)"
  proof (rule Cons.IH)
    fix op' assume "op' \<in> set ops"
    with Cons.prems [of op'] have "op' < n_operators g" "has_conversion_slots g op'" by simp_all
    with s show "op' < n_operators g1 \<and> has_conversion_slots g1 op'"
      by (rule has_conversion_slots_kept)
  qed
  then show ?case by (simp add: 1 bind_err_def)
qed

text \<open>
  Claim C8. Whenever \<open>optimize\<close> returns, \<open>changed\<close> is \<open>True\<close> exactly when the graph
  has more operators than before, no operator is ever removed, and with \<open>changed = False\<close>
  the graph is the one passed in. It does return when the listed operators are in use and
  every conversion operator among them has its slots \<open>x0\<close> and \<open>y\<close>. On a graph in which
  every listed operator has the modes of its class on its slots, it returns this graph and
  \<open>changed = False\<close>.
\<close>

theorem optimize_changed_iff_inserted:
  "(\<forall>g' changed. optimize d listup_operators g = Inr (g', changed) \<longrightarrow>
       (changed \<longleftrightarrow> n_operators g < n_operators g') \<and> n_operators g \<le> n_operators g'
       \<and> (\<not> changed \<longrightarrow> g' = g))
   \<and> ((\<forall>op \<in> set (listup_operators g). op < n_operators g \<and> has_conversion_slots g op) \<longrightarrow>
       (\<exists>g' changed. optimize d listup_operators g = Inr (g', changed)))
   \<and> ((\<forall>op \<in> set (listup_operators g). required_modes_hold d g op) \<longrightarrow>
       optimize d listup_operators g = Inr (g, False))"
proof -
  have a: "(changed \<longleftrightarrow> n_operators g < n_operators g') \<and> n_operators g \<le> n_operators g'
       \<and> (\<not> changed \<longrightarrow> g' = g)"
    if "optimize d listup_operators g = Inr (g', changed)" for g' changed
  proof -
    from that have "optimize_loop d (listup_operators g) False g = Inr (g', changed)"
      by (simp add: optimize_def)
    from optimize_loop_inv [OF this] show ?thesis by simp
  qed
  have b: "\<exists>g' changed. optimize d listup_operators g = Inr (g', changed)"
    if "\<forall>op \<in> set (listup_operators g). op < n_operators g \<and> has_conversion_slots g op"
  proof -
    have "\<exists>g' changed. optimize_loop d (listup_operators g) False g = Inr (g', changed)"
    proof (rule optimize_loop_total)
      fix op assume "op \<in> set (listup_operators g)"
      with that show "op < n_operators g \<and> has_conversion_slots g op" by (rule bspec)
    qed
    then show ?thesis by (simp add: optimize_def)
  qed
  have c: "optimize d listup_operators g = Inr (g, False)"
    if "\<forall>op \<in> set (listup_operators g). required_modes_hold d g op"
  proof -
    have "optimize_loop d (listup_operators g) False g = Inr (g, False)"
    proof (rule optimize_loop_fix)
      fix op assume "op \<in> set (listup_operators g)"
      with that show "required_modes_hold d g op" by (rule bspec)
    qed
    then show ?thesis by (simp add: optimize_def)
  qed
  show ?thesis
  proof (intro conjI)
    show "\<forall>g' changed. optimize d listup_operators g = Inr (g', changed) \<longrightarrow>
       (changed \<longleftrightarrow> n_operators g < n_operators g') \<and> n_operators g \<le> n_operators g'
       \<and> (\<not> changed \<longrightarrow> g' = g)"
      using a by blast
    show "(\<forall>op \<in> set (listup_operators g). op < n_operators g \<and> has_conversion_slots g op) \<longrightarrow>
       (\<exists>g' changed. optimize d listup_operators g = Inr (g', changed))"
      using b by blast
    show "(\<forall>op \<in> set (listup_operators g). required_modes_hold d g op) \<longrightarrow>
       optimize d listup_operators g = Inr (g, False)"
      using c by blast
  qed
qed

lemma rgba_producer_run:
  "optimize d0 listup_all rgba_producer = Inr (input_spliced d0 1 R rgba_producer 2, True)"
proof -
  have l: "listup_all rgba_producer = [0, 1]"
    by (rule listup_all_2) (simp add: rgba_producer_def)
  show ?thesis
    unfolding optimize_def l
    by (simp add: pass_eval rgba_producer_def)
qed

text \<open>
  Claim C8 on a matrix product in RGBA mode that feeds a convolution: the first invocation
  inserts one \<open>ConvertRGBAtoR\<close> on that edge and returns \<open>changed = True\<close>; the second, on
  the result of the first, returns the same graph and \<open>changed = False\<close>.
\<close>

theorem optimize_changed_iff_inserted_witness:
  "n_operators rgba_producer = 2
   \<and> \<not> isl (optimize d0 listup_all rgba_producer)
   \<and> snd (projr (optimize d0 listup_all rgba_producer))
   \<and> n_operators (fst (projr (optimize d0 listup_all rgba_producer))) = 3
   \<and> operators (fst (projr (optimize d0 listup_all rgba_producer))) 2
       = \<lparr>op_class = ConvertRGBAtoR, op_inputs = [(''x0'', 2)], op_outputs = [(''y'', 5)]\<rparr>
   \<and> op_inputs (operators (fst (projr (optimize d0 listup_all rgba_producer))) 1)
       = [(''x'', 5), (''w'', 3)]
   \<and> optimize d0 listup_all (fst (projr (optimize d0 listup_all rgba_producer)))
       = Inr (fst (projr (optimize d0 listup_all rgba_producer)), False)"
proof -
  let ?g1 = "input_spliced d0 1 R rgba_producer 2"
  have l: "listup_all ?g1 = [0, 1, 2]"
    by (rule listup_all_3) (simp add: input_spliced_proj rgba_producer_def)
  have fixed: "\<forall>op \<in> set (listup_all ?g1). required_modes_hold d0 ?g1 op"
    unfolding l
    by (simp add: required_modes_hold_def slot_mode_def pass_eval rgba_producer_def)
  from optimize_changed_iff_inserted [of d0 listup_all rgba_producer]
    optimize_changed_iff_inserted [of d0 listup_all ?g1] fixed
  show ?thesis
    unfolding rgba_producer_run
    by (simp add: pass_eval rgba_producer_def)
qed

subsection \<open>The modes asked of each class\<close>

lemma slots_driven_refl: "slots_driven d g t slots slots"
  by (simp add: slots_driven_def list_all2_same)

lemma slots_driven_subst:
  "ChannelMode_get d g' b = t \<Longrightarrow> slots_driven d g' t slots (subst_var a b slots)"
  by (simp add: slots_driven_def subst_var_def list_all2_map2 list_all2_same split_def)

lemma slots_driven_cong:
  assumes "slots_driven d g1 t a b"
    and "\<And>s. s \<in> set b \<Longrightarrow> ChannelMode_get d g2 (snd s) = ChannelMode_get d g1 (snd s)"
  shows "slots_driven d g2 t a b"
  unfolding slots_driven_def list_all2_conv_all_nth
proof (intro conjI allI impI)
  from assms(1) show "length a = length b"
    by (simp add: slots_driven_def list_all2_conv_all_nth)
next
  fix i assume i: "i < length a"
  from assms(1) have len: "length a = length b"
    and p: "fst (b ! i) = fst (a ! i) \<and> (snd (b ! i) = snd (a ! i) \<or> ChannelMode_get d g1 (snd (b ! i)) = t)"
    using i by (simp_all add: slots_driven_def list_all2_conv_all_nth)
  from i len have "b ! i \<in> set b" by simp
  from assms(2) [OF this] p
  show "fst (b ! i) = fst (a ! i)" by simp
  from assms(2) [OF \<open>b ! i \<in> set b\<close>] p
  show "snd (b ! i) = snd (a ! i) \<or> ChannelMode_get d g2 (snd (b ! i)) = t" by simp
qed

lemma subst_var_changed:
  assumes "(nm, a) \<in> set slots" and "b \<notin> snd ` set slots"
  shows "subst_var a b slots \<noteq> slots"
proof
  assume eq: "subst_var a b slots = slots"
  from assms(1) have "(nm, b) \<in> set (subst_var a b slots)"
    by (force simp: subst_var_def)
  with eq have "(nm, b) \<in> set slots" by simp
  then have "b \<in> snd ` set slots" by force
  with assms(2) show False by simp
qed

lemma slots_allocated_iff:
  "slots_allocated g op \<longleftrightarrow>
     (\<forall>k \<in> snd ` set (op_inputs (operators g op)) \<union> snd ` set (op_outputs (operators g op)).
        k < n_variables g)"
  by (auto simp: slots_allocated_def list_all_iff)

lemma in_post_refl:
  "op < n_operators g \<Longrightarrow> slots_allocated g op \<Longrightarrow> in_post d op t g False g"
  by (simp add: in_post_def slots_driven_refl)

lemma out_post_refl: "out_post d op t g False g"
  by (simp add: out_post_def slots_driven_refl)

lemma in_post_spliced:
  assumes op: "op < n_operators g" and wf: "slots_allocated g op"
    and slot: "map_of (op_inputs (operators g op)) nm = Some u"
  shows "in_post d op t g True (input_spliced d op t g u)"
proof -
  let ?g1 = "input_spliced d op t g u"
  from op have ne: "op \<noteq> n_operators g" by simp
  have ops: "operators ?g1 op =
      (operators g op)\<lparr>op_inputs := subst_var u (n_variables g) (op_inputs (operators g op))\<rparr>"
    by (rule input_spliced_operators(1) [OF ne])
  have 1: "op < n_operators ?g1" using op by (simp add: input_spliced_proj)
  have 2: "slots_allocated ?g1 op"
    unfolding slots_allocated_iff
  proof
    fix k
    assume "k \<in> snd ` set (op_inputs (operators ?g1 op)) \<union> snd ` set (op_outputs (operators ?g1 op))"
    then have "k \<in> snd ` set (subst_var u (n_variables g) (op_inputs (operators g op)))
        \<or> k \<in> snd ` set (op_outputs (operators g op))"
      by (simp add: ops)
    then consider (new) "k = n_variables g"
      | (old) "k \<in> snd ` set (op_inputs (operators g op)) \<union> snd ` set (op_outputs (operators g op))"
      using snd_subst_var [of u "n_variables g" "op_inputs (operators g op)"] by blast
    then have "k \<le> n_variables g"
    proof cases
      case new
      then show ?thesis by simp
    next
      case old
      from wf have "\<forall>k \<in> snd ` set (op_inputs (operators g op)) \<union> snd ` set (op_outputs (operators g op)).
          k < n_variables g"
        by (simp add: slots_allocated_iff)
      from this old have "k < n_variables g" by (rule bspec)
      then show ?thesis by simp
    qed
    then show "k < n_variables ?g1" by (simp add: input_spliced_proj)
  qed
  have 3: "op_class (operators ?g1 op) = op_class (operators g op)"
    "op_outputs (operators ?g1 op) = op_outputs (operators g op)"
    by (simp_all add: ops)
  have 4: "n_variables g \<le> n_variables ?g1" by (simp add: input_spliced_proj)
  have 5: "\<forall>w < n_variables g. ChannelMode_get d ?g1 w = ChannelMode_get d g w"
    by (simp add: ChannelMode_get_input_spliced)
  have 6: "slots_driven d ?g1 t (op_inputs (operators g op)) (op_inputs (operators ?g1 op))"
    unfolding ops by (simp add: slots_driven_subst ChannelMode_get_input_spliced)
  from slot have "(nm, u) \<in> set (op_inputs (operators g op))" by (rule map_of_SomeD)
  moreover have "n_variables g \<notin> snd ` set (op_inputs (operators g op))"
    by (rule slots_allocated_absent [OF wf]) simp
  ultimately have 7: "op_inputs (operators ?g1 op) \<noteq> op_inputs (operators g op)"
    unfolding ops by (simp add: subst_var_changed)
  from 1 2 3 4 5 6 7 show ?thesis by (simp add: in_post_def)
qed

lemma out_post_spliced:
  assumes op: "op < n_operators g" and wf: "slots_allocated g op"
    and slot: "map_of (op_outputs (operators g op)) nm = Some v"
  shows "out_post d op t g True (output_spliced op t g v)"
proof -
  let ?g2 = "output_spliced op t g v"
  from op have ne: "op \<noteq> n_operators g" by simp
  have ops: "operators ?g2 op =
      (operators g op)\<lparr>op_outputs := subst_var v (n_variables g) (op_outputs (operators g op))\<rparr>"
    by (rule output_spliced_same_op [OF ne wf])
  have 3: "op_class (operators ?g2 op) = op_class (operators g op)"
    "op_inputs (operators ?g2 op) = op_inputs (operators g op)"
    by (simp_all add: ops)
  have 4: "n_variables g \<le> n_variables ?g2" by (simp add: output_spliced_proj)
  have 5: "\<forall>w < n_variables g. ChannelMode_get d ?g2 w = ChannelMode_get d g w"
    by (simp add: ChannelMode_get_output_spliced)
  have 6: "slots_driven d ?g2 t (op_outputs (operators g op)) (op_outputs (operators ?g2 op))"
    unfolding ops by (simp add: slots_driven_subst ChannelMode_get_output_spliced)
  from slot have "(nm, v) \<in> set (op_outputs (operators g op))" by (rule map_of_SomeD)
  moreover have "n_variables g \<notin> snd ` set (op_outputs (operators g op))"
    by (rule slots_allocated_absent [OF wf]) simp
  ultimately have 7: "op_outputs (operators ?g2 op) \<noteq> op_outputs (operators g op)"
    unfolding ops by (simp add: subst_var_changed)
  from 3 4 5 6 7 show ?thesis by (simp add: out_post_def)
qed

lemma any_replace_scan:
  assumes "\<And>nm. nm \<in> set nms \<Longrightarrow> f nm g = Inr (False, g) \<or> (\<exists>g'. f nm g = Inr (True, g'))"
  shows "(any_replace f nms g = Inr (False, g) \<and> (\<forall>nm \<in> set nms. f nm g = Inr (False, g)))
       \<or> (\<exists>nm \<in> set nms. \<exists>g'. f nm g = Inr (True, g') \<and> any_replace f nms g = Inr (True, g'))"
  using assms
proof (induction nms)
  case Nil
  show ?case by simp
next
  case (Cons nm nms)
  have ih: "(any_replace f nms g = Inr (False, g) \<and> (\<forall>nm \<in> set nms. f nm g = Inr (False, g)))
       \<or> (\<exists>nm \<in> set nms. \<exists>g'. f nm g = Inr (True, g') \<and> any_replace f nms g = Inr (True, g'))"
    by (rule Cons.IH) (rule Cons.prems, simp)
  from Cons.prems [of nm] consider (no) "f nm g = Inr (False, g)"
    | (yes) g' where "f nm g = Inr (True, g')"
    by auto
  then show ?case
  proof cases
    case no
    then have eq: "any_replace f (nm # nms) g = any_replace f nms g"
      by (simp add: bind_err_def)
    from ih show ?thesis
    proof
      assume a: "any_replace f nms g = Inr (False, g) \<and> (\<forall>nm \<in> set nms. f nm g = Inr (False, g))"
      with no eq have "any_replace f (nm # nms) g = Inr (False, g)
          \<and> (\<forall>nm' \<in> set (nm # nms). f nm' g = Inr (False, g))"
        by simp
      then show ?thesis by (rule disjI1)
    next
      assume "\<exists>nm \<in> set nms. \<exists>g'. f nm g = Inr (True, g') \<and> any_replace f nms g = Inr (True, g')"
      then obtain nm' g' where "nm' \<in> set nms" "f nm' g = Inr (True, g')"
        "any_replace f nms g = Inr (True, g')"
        by blast
      with eq have "nm' \<in> set (nm # nms)" "f nm' g = Inr (True, g')
          \<and> any_replace f (nm # nms) g = Inr (True, g')"
        by simp_all
      then show ?thesis by blast
    qed
  next
    case yes
    then have "any_replace f (nm # nms) g = Inr (True, g')" by (simp add: bind_err_def)
    with yes have "nm \<in> set (nm # nms)" "f nm g = Inr (True, g')
        \<and> any_replace f (nm # nms) g = Inr (True, g')"
      by simp_all
    then show ?thesis by blast
  qed
qed

lemma replace_input_result:
  assumes "nm \<in> set (map fst (op_inputs (operators g op)))"
  shows "(replace_input d op nm t g = Inr (False, g)
            \<and> slot_mode d g (op_inputs (operators g op)) nm t)
       \<or> (\<exists>u. map_of (op_inputs (operators g op)) nm = Some u \<and> ChannelMode_get d g u \<noteq> t
              \<and> replace_input d op nm t g = Inr (True, input_spliced d op t g u))"
proof -
  from assms obtain u where u: "map_of (op_inputs (operators g op)) nm = Some u"
    by (cases "map_of (op_inputs (operators g op)) nm") (auto simp: map_of_eq_None_iff)
  show ?thesis
  proof (cases "ChannelMode_get d g u = t")
    case True
    then have "replace_input d op nm t g = Inr (False, g)"
      "slot_mode d g (op_inputs (operators g op)) nm t"
      by (simp_all add: replace_input_unfold u slot_mode_def)
    then show ?thesis by simp
  next
    case False
    then have "replace_input d op nm t g = Inr (True, input_spliced d op t g u)"
      by (simp add: replace_input_unfold u)
    with False u show ?thesis by simp
  qed
qed

lemma replace_output_result:
  assumes "nm \<in> set (map fst (op_outputs (operators g op)))"
  shows "(replace_output d op nm t g = Inr (False, g)
            \<and> slot_mode d g (op_outputs (operators g op)) nm t)
       \<or> (\<exists>v. map_of (op_outputs (operators g op)) nm = Some v \<and> ChannelMode_get d g v \<noteq> t
              \<and> replace_output d op nm t g = Inr (True, output_spliced op t g v))"
proof -
  from assms obtain v where v: "map_of (op_outputs (operators g op)) nm = Some v"
    by (cases "map_of (op_outputs (operators g op)) nm") (auto simp: map_of_eq_None_iff)
  show ?thesis
  proof (cases "ChannelMode_get d g v = t")
    case True
    then have "replace_output d op nm t g = Inr (False, g)"
      "slot_mode d g (op_outputs (operators g op)) nm t"
      by (simp_all add: replace_output_unfold v slot_mode_def)
    then show ?thesis by simp
  next
    case False
    then have "replace_output d op nm t g = Inr (True, output_spliced op t g v)"
      by (simp add: replace_output_unfold v)
    with False v show ?thesis by simp
  qed
qed

lemma replace_input_one:
  assumes op: "op < n_operators g" and wf: "slots_allocated g op"
    and nm: "nm \<in> set (map fst (op_inputs (operators g op)))"
  shows "\<exists>b g1. replace_input d op nm t g = Inr (b, g1) \<and> in_post d op t g b g1
           \<and> slot_mode d g1 (op_inputs (operators g1 op)) nm t"
  using replace_input_result [OF nm, of d t]
proof
  assume "replace_input d op nm t g = Inr (False, g) \<and> slot_mode d g (op_inputs (operators g op)) nm t"
  with in_post_refl [OF op wf, of d t] show ?thesis by blast
next
  assume "\<exists>u. map_of (op_inputs (operators g op)) nm = Some u \<and> ChannelMode_get d g u \<noteq> t
              \<and> replace_input d op nm t g = Inr (True, input_spliced d op t g u)"
  then obtain u where u: "map_of (op_inputs (operators g op)) nm = Some u"
    and r: "replace_input d op nm t g = Inr (True, input_spliced d op t g u)"
    by blast
  from op have ne: "op \<noteq> n_operators g" by simp
  have "slot_mode d (input_spliced d op t g u) (op_inputs (operators (input_spliced d op t g u) op)) nm t"
    by (simp add: slot_mode_def input_spliced_operators(1) [OF ne] map_of_subst_var_hit [OF u]
        ChannelMode_get_input_spliced)
  with r in_post_spliced [OF op wf u, of d t] show ?thesis by blast
qed

lemma replace_output_one:
  assumes op: "op < n_operators g" and wf: "slots_allocated g op"
    and nm: "nm \<in> set (map fst (op_outputs (operators g op)))"
  shows "\<exists>b g2. replace_output d op nm t g = Inr (b, g2) \<and> out_post d op t g b g2
           \<and> slot_mode d g2 (op_outputs (operators g2 op)) nm t"
  using replace_output_result [OF nm, of d t]
proof
  assume "replace_output d op nm t g = Inr (False, g) \<and> slot_mode d g (op_outputs (operators g op)) nm t"
  with out_post_refl [of d op t g] show ?thesis by blast
next
  assume "\<exists>v. map_of (op_outputs (operators g op)) nm = Some v \<and> ChannelMode_get d g v \<noteq> t
              \<and> replace_output d op nm t g = Inr (True, output_spliced op t g v)"
  then obtain v where v: "map_of (op_outputs (operators g op)) nm = Some v"
    and r: "replace_output d op nm t g = Inr (True, output_spliced op t g v)"
    by blast
  from op have ne: "op \<noteq> n_operators g" by simp
  have "slot_mode d (output_spliced op t g v) (op_outputs (operators (output_spliced op t g v) op)) nm t"
    by (simp add: slot_mode_def output_spliced_same_op [OF ne wf] map_of_subst_var_hit [OF v]
        ChannelMode_get_output_spliced)
  with r out_post_spliced [OF op wf v, of d t] show ?thesis by blast
qed

lemma replace_input_all_result:
  assumes op: "op < n_operators g" and wf: "slots_allocated g op"
  shows "\<exists>b g1. replace_input_all d op t g = Inr (b, g1) \<and> in_post d op t g b g1
           \<and> (b \<longleftrightarrow> \<not> (\<forall>nm \<in> set (map fst (op_inputs (operators g op))).
                          slot_mode d g (op_inputs (operators g op)) nm t))"
proof -
  let ?f = "\<lambda>var_name. replace_input d op var_name t"
  let ?nms = "map fst (op_inputs (operators g op))"
  have "(any_replace ?f ?nms g = Inr (False, g) \<and> (\<forall>nm \<in> set ?nms. ?f nm g = Inr (False, g)))
       \<or> (\<exists>nm \<in> set ?nms. \<exists>g'. ?f nm g = Inr (True, g') \<and> any_replace ?f ?nms g = Inr (True, g'))"
  proof (rule any_replace_scan)
    fix nm assume "nm \<in> set ?nms"
    from replace_input_result [OF this, of d t]
    show "?f nm g = Inr (False, g) \<or> (\<exists>g'. ?f nm g = Inr (True, g'))" by blast
  qed
  then show ?thesis
  proof
    assume a: "any_replace ?f ?nms g = Inr (False, g) \<and> (\<forall>nm \<in> set ?nms. ?f nm g = Inr (False, g))"
    have "slot_mode d g (op_inputs (operators g op)) nm t" if "nm \<in> set ?nms" for nm
    proof -
      from a that have "replace_input d op nm t g = Inr (False, g)" by blast
      with replace_input_result [OF that, of d t] show ?thesis by simp
    qed
    moreover from a have "replace_input_all d op t g = Inr (False, g)"
      by (simp add: replace_input_all_def)
    ultimately show ?thesis using in_post_refl [OF op wf, of d t] by blast
  next
    assume "\<exists>nm \<in> set ?nms. \<exists>g'. ?f nm g = Inr (True, g') \<and> any_replace ?f ?nms g = Inr (True, g')"
    then obtain nm g' where nm: "nm \<in> set ?nms" and f: "replace_input d op nm t g = Inr (True, g')"
      and r: "any_replace ?f ?nms g = Inr (True, g')"
      by blast
    from replace_input_result [OF nm, of d t] f obtain u where
      u: "map_of (op_inputs (operators g op)) nm = Some u" "ChannelMode_get d g u \<noteq> t"
      and g': "g' = input_spliced d op t g u"
      by auto
    from u have "\<not> slot_mode d g (op_inputs (operators g op)) nm t"
      by (simp add: slot_mode_def)
    with nm have "\<not> (\<forall>nm \<in> set ?nms. slot_mode d g (op_inputs (operators g op)) nm t)" by blast
    moreover from r have "replace_input_all d op t g = Inr (True, g')"
      by (simp add: replace_input_all_def)
    ultimately show ?thesis using in_post_spliced [OF op wf u(1), of d t] g' by blast
  qed
qed

lemma replace_output_all_result:
  assumes op: "op < n_operators g" and wf: "slots_allocated g op"
  shows "\<exists>b g2. replace_output_all d op t g = Inr (b, g2) \<and> out_post d op t g b g2
           \<and> (b \<longleftrightarrow> \<not> (\<forall>nm \<in> set (map fst (op_outputs (operators g op))).
                          slot_mode d g (op_outputs (operators g op)) nm t))"
proof -
  let ?f = "\<lambda>var_name. replace_output d op var_name t"
  let ?nms = "map fst (op_outputs (operators g op))"
  have "(any_replace ?f ?nms g = Inr (False, g) \<and> (\<forall>nm \<in> set ?nms. ?f nm g = Inr (False, g)))
       \<or> (\<exists>nm \<in> set ?nms. \<exists>g'. ?f nm g = Inr (True, g') \<and> any_replace ?f ?nms g = Inr (True, g'))"
  proof (rule any_replace_scan)
    fix nm assume "nm \<in> set ?nms"
    from replace_output_result [OF this, of d t]
    show "?f nm g = Inr (False, g) \<or> (\<exists>g'. ?f nm g = Inr (True, g'))" by blast
  qed
  then show ?thesis
  proof
    assume a: "any_replace ?f ?nms g = Inr (False, g) \<and> (\<forall>nm \<in> set ?nms. ?f nm g = Inr (False, g))"
    have "slot_mode d g (op_outputs (operators g op)) nm t" if "nm \<in> set ?nms" for nm
    proof -
      from a that have "replace_output d op nm t g = Inr (False, g)" by blast
      with replace_output_result [OF that, of d t] show ?thesis by simp
    qed
    moreover from a have "replace_output_all d op t g = Inr (False, g)"
      by (simp add: replace_output_all_def)
    ultimately show ?thesis using out_post_refl [of d op t g] by blast
  next
    assume "\<exists>nm \<in> set ?nms. \<exists>g'. ?f nm g = Inr (True, g') \<and> any_replace ?f ?nms g = Inr (True, g')"
    then obtain nm g' where nm: "nm \<in> set ?nms" and f: "replace_output d op nm t g = Inr (True, g')"
      and r: "any_replace ?f ?nms g = Inr (True, g')"
      by blast
    from replace_output_result [OF nm, of d t] f obtain v where
      v: "map_of (op_outputs (operators g op)) nm = Some v" "ChannelMode_get d g v \<noteq> t"
      and g': "g' = output_spliced op t g v"
      by auto
    from v have "\<not> slot_mode d g (op_outputs (operators g op)) nm t"
      by (simp add: slot_mode_def)
    with nm have "\<not> (\<forall>nm \<in> set ?nms. slot_mode d g (op_outputs (operators g op)) nm t)" by blast
    moreover from r have "replace_output_all d op t g = Inr (True, g')"
      by (simp add: replace_output_all_def)
    ultimately show ?thesis using out_post_spliced [OF op wf v(1), of d t] g' by blast
  qed
qed

lemma slot_mode_all_iff:
  assumes "distinct (map fst slots)"
  shows "(\<forall>nm \<in> set (map fst slots). slot_mode d g slots nm t)
     \<longleftrightarrow> list_all (\<lambda>s. ChannelMode_get d g (snd s) = t) slots"
proof
  assume a: "\<forall>nm \<in> set (map fst slots). slot_mode d g slots nm t"
  show "list_all (\<lambda>s. ChannelMode_get d g (snd s) = t) slots"
    unfolding list_all_iff
  proof
    fix s assume s: "s \<in> set slots"
    obtain nm v where sv: "s = (nm, v)" by (cases s)
    from s sv have "(nm, v) \<in> set slots" by simp
    with assms have m: "map_of slots nm = Some v" by (rule map_of_is_SomeI)
    from s sv have "nm \<in> set (map fst slots)" by force
    with a have "slot_mode d g slots nm t" by blast
    with m show "ChannelMode_get d g (snd s) = t" by (simp add: slot_mode_def sv)
  qed
next
  assume "list_all (\<lambda>s. ChannelMode_get d g (snd s) = t) slots"
  then show "\<forall>nm \<in> set (map fst slots). slot_mode d g slots nm t"
    using list_all_slot_mode by blast
qed

lemma slot_mode_frame:
  assumes "slot_mode d g1 slots nm t"
    and "\<And>s. s \<in> set slots \<Longrightarrow> ChannelMode_get d g2 (snd s) = ChannelMode_get d g1 (snd s)"
  shows "slot_mode d g2 slots nm t"
proof -
  from assms(1) obtain v where v: "map_of slots nm = Some v" and m: "ChannelMode_get d g1 v = t"
    by (cases "map_of slots nm") (simp_all add: slot_mode_def)
  from v have "(nm, v) \<in> set slots" by (rule map_of_SomeD)
  from assms(2) [OF this] m have "ChannelMode_get d g2 v = t" by simp
  with v show ?thesis by (simp add: slot_mode_def)
qed

lemma allocated_modes_agree:
  assumes wf: "slots_allocated g op"
    and agree: "\<forall>w < n_variables g. ChannelMode_get d g' w = ChannelMode_get d g w"
  shows "s \<in> set (op_inputs (operators g op)) \<Longrightarrow>
           ChannelMode_get d g' (snd s) = ChannelMode_get d g (snd s)"
    and "s \<in> set (op_outputs (operators g op)) \<Longrightarrow>
           ChannelMode_get d g' (snd s) = ChannelMode_get d g (snd s)"
proof -
  from wf have *: "\<forall>s \<in> set (op_inputs (operators g op)) \<union> set (op_outputs (operators g op)).
      snd s < n_variables g"
    by (simp add: slots_allocated_def list_all_iff)
  show "ChannelMode_get d g' (snd s) = ChannelMode_get d g (snd s)"
    if "s \<in> set (op_inputs (operators g op))"
  proof -
    from * that have "snd s < n_variables g" by blast
    with agree show ?thesis by blast
  qed
  show "ChannelMode_get d g' (snd s) = ChannelMode_get d g (snd s)"
    if "s \<in> set (op_outputs (operators g op))"
  proof -
    from * that have "snd s < n_variables g" by blast
    with agree show ?thesis by blast
  qed
qed

lemma convert_pair_post:
  assumes op: "op < n_operators g" and wf: "slots_allocated g op"
    and x0: "''x0'' \<in> set (map fst (op_inputs (operators g op)))"
    and y: "''y'' \<in> set (map fst (op_outputs (operators g op)))"
  shows "\<exists>b g'. bind_err (replace_input d op ''x0'' t1 g) (\<lambda>(b1, g1).
           bind_err (replace_output d op ''y'' t2 g1) (\<lambda>(b2, g2). Inr (b1 \<or> b2, g2))) = Inr (b, g')
         \<and> slot_mode d g' (op_inputs (operators g' op)) ''x0'' t1
         \<and> slot_mode d g' (op_outputs (operators g' op)) ''y'' t2"
proof -
  from replace_input_one [OF op wf x0, of d t1] obtain b1 g1 where
    r1: "replace_input d op ''x0'' t1 g = Inr (b1, g1)" and p1: "in_post d op t1 g b1 g1"
    and s1: "slot_mode d g1 (op_inputs (operators g1 op)) ''x0'' t1"
    by blast
  from p1 have op1: "op < n_operators g1" and wf1: "slots_allocated g1 op"
    and outs1: "op_outputs (operators g1 op) = op_outputs (operators g op)"
    by (simp_all add: in_post_def)
  from y outs1 have y1: "''y'' \<in> set (map fst (op_outputs (operators g1 op)))" by simp
  from replace_output_one [OF op1 wf1 y1, of d t2] obtain b2 g2 where
    r2: "replace_output d op ''y'' t2 g1 = Inr (b2, g2)" and p2: "out_post d op t2 g1 b2 g2"
    and s2: "slot_mode d g2 (op_outputs (operators g2 op)) ''y'' t2"
    by blast
  from p2 have ins2: "op_inputs (operators g2 op) = op_inputs (operators g1 op)"
    and agree: "\<forall>w < n_variables g1. ChannelMode_get d g2 w = ChannelMode_get d g1 w"
    by (simp_all add: out_post_def)
  have s1': "slot_mode d g2 (op_inputs (operators g2 op)) ''x0'' t1"
    unfolding ins2
  proof (rule slot_mode_frame [OF s1])
    fix s assume "s \<in> set (op_inputs (operators g1 op))"
    then show "ChannelMode_get d g2 (snd s) = ChannelMode_get d g1 (snd s)"
      by (rule allocated_modes_agree(1) [OF wf1 agree])
  qed
  have "bind_err (replace_input d op ''x0'' t1 g) (\<lambda>(b1, g1).
           bind_err (replace_output d op ''y'' t2 g1) (\<lambda>(b2, g2). Inr (b1 \<or> b2, g2)))
        = Inr (b1 \<or> b2, g2)"
    by (simp add: r1 r2 bind_err_def)
  with s1' s2 show ?thesis by blast
qed

lemma scan_pair_post:
  assumes op: "op < n_operators g" and wf: "slots_allocated g op"
    and din: "distinct (map fst (op_inputs (operators g op)))"
    and dout: "distinct (map fst (op_outputs (operators g op)))"
  shows "\<exists>b g'. bind_err (replace_input_all d op t g) (\<lambda>(b1, g1).
           bind_err (replace_output_all d op t g1) (\<lambda>(b2, g2). Inr (b1 \<or> b2, g2))) = Inr (b, g')
         \<and> slots_driven d g' t (op_inputs (operators g op)) (op_inputs (operators g' op))
         \<and> slots_driven d g' t (op_outputs (operators g op)) (op_outputs (operators g' op))
         \<and> (op_inputs (operators g' op) = op_inputs (operators g op)
              \<longleftrightarrow> list_all (\<lambda>s. ChannelMode_get d g (snd s) = t) (op_inputs (operators g op)))
         \<and> (op_outputs (operators g' op) = op_outputs (operators g op)
              \<longleftrightarrow> list_all (\<lambda>s. ChannelMode_get d g (snd s) = t) (op_outputs (operators g op)))
         \<and> (b \<longleftrightarrow> \<not> list_all (\<lambda>s. ChannelMode_get d g (snd s) = t)
                        (op_inputs (operators g op) @ op_outputs (operators g op)))"
proof -
  from replace_input_all_result [OF op wf, of d t] obtain b1 g1 where
    r1: "replace_input_all d op t g = Inr (b1, g1)" and p1: "in_post d op t g b1 g1"
    and c1: "b1 \<longleftrightarrow> \<not> (\<forall>nm \<in> set (map fst (op_inputs (operators g op))).
                          slot_mode d g (op_inputs (operators g op)) nm t)"
    by blast
  from p1 have op1: "op < n_operators g1" and wf1: "slots_allocated g1 op"
    and outs1: "op_outputs (operators g1 op) = op_outputs (operators g op)"
    and agree1: "\<forall>w < n_variables g. ChannelMode_get d g1 w = ChannelMode_get d g w"
    and sd1: "slots_driven d g1 t (op_inputs (operators g op)) (op_inputs (operators g1 op))"
    and e1: "op_inputs (operators g1 op) = op_inputs (operators g op) \<longleftrightarrow> \<not> b1"
    by (simp_all add: in_post_def)
  from replace_output_all_result [OF op1 wf1, of d t] obtain b2 g2 where
    r2: "replace_output_all d op t g1 = Inr (b2, g2)" and p2: "out_post d op t g1 b2 g2"
    and c2: "b2 \<longleftrightarrow> \<not> (\<forall>nm \<in> set (map fst (op_outputs (operators g1 op))).
                          slot_mode d g1 (op_outputs (operators g1 op)) nm t)"
    by blast
  from p2 have ins2: "op_inputs (operators g2 op) = op_inputs (operators g1 op)"
    and agree2: "\<forall>w < n_variables g1. ChannelMode_get d g2 w = ChannelMode_get d g1 w"
    and sd2: "slots_driven d g2 t (op_outputs (operators g1 op)) (op_outputs (operators g2 op))"
    and e2: "op_outputs (operators g2 op) = op_outputs (operators g1 op) \<longleftrightarrow> \<not> b2"
    by (simp_all add: out_post_def)
  have A: "slots_driven d g2 t (op_inputs (operators g op)) (op_inputs (operators g2 op))"
    unfolding ins2
  proof (rule slots_driven_cong [OF sd1])
    fix s assume "s \<in> set (op_inputs (operators g1 op))"
    then show "ChannelMode_get d g2 (snd s) = ChannelMode_get d g1 (snd s)"
      by (rule allocated_modes_agree(1) [OF wf1 agree2])
  qed
  have B: "slots_driven d g2 t (op_outputs (operators g op)) (op_outputs (operators g2 op))"
    using sd2 by (simp add: outs1)
  have C1: "b1 \<longleftrightarrow> \<not> list_all (\<lambda>s. ChannelMode_get d g (snd s) = t) (op_inputs (operators g op))"
    using c1 unfolding slot_mode_all_iff [OF din] .
  have same: "slot_mode d g1 (op_outputs (operators g op)) nm t
      \<longleftrightarrow> slot_mode d g (op_outputs (operators g op)) nm t" for nm
  proof
    assume "slot_mode d g1 (op_outputs (operators g op)) nm t"
    then show "slot_mode d g (op_outputs (operators g op)) nm t"
    proof (rule slot_mode_frame)
      fix s assume "s \<in> set (op_outputs (operators g op))"
      from allocated_modes_agree(2) [OF wf agree1 this]
      show "ChannelMode_get d g (snd s) = ChannelMode_get d g1 (snd s)" by simp
    qed
  next
    assume "slot_mode d g (op_outputs (operators g op)) nm t"
    then show "slot_mode d g1 (op_outputs (operators g op)) nm t"
    proof (rule slot_mode_frame)
      fix s assume "s \<in> set (op_outputs (operators g op))"
      from allocated_modes_agree(2) [OF wf agree1 this]
      show "ChannelMode_get d g1 (snd s) = ChannelMode_get d g (snd s)" by simp
    qed
  qed
  have C2: "b2 \<longleftrightarrow> \<not> list_all (\<lambda>s. ChannelMode_get d g (snd s) = t) (op_outputs (operators g op))"
    using c2 unfolding outs1 same slot_mode_all_iff [OF dout] .
  have run: "bind_err (replace_input_all d op t g) (\<lambda>(b1, g1).
           bind_err (replace_output_all d op t g1) (\<lambda>(b2, g2). Inr (b1 \<or> b2, g2)))
        = Inr (b1 \<or> b2, g2)"
    by (simp add: r1 r2 bind_err_def)
  have E1: "op_inputs (operators g2 op) = op_inputs (operators g op)
              \<longleftrightarrow> list_all (\<lambda>s. ChannelMode_get d g (snd s) = t) (op_inputs (operators g op))"
    using e1 C1 by (simp add: ins2)
  have E2: "op_outputs (operators g2 op) = op_outputs (operators g op)
              \<longleftrightarrow> list_all (\<lambda>s. ChannelMode_get d g (snd s) = t) (op_outputs (operators g op))"
    using e2 C2 by (simp add: outs1)
  have F: "(b1 \<or> b2) \<longleftrightarrow> \<not> list_all (\<lambda>s. ChannelMode_get d g (snd s) = t)
                        (op_inputs (operators g op) @ op_outputs (operators g op))"
    using C1 C2 by simp
  from run A B E1 E2 F show ?thesis by blast
qed

text \<open>
  Claim C4. For an operator in use whose slots are bound to variables in use and have distinct
  names, the body of the loop of \<open>optimize\<close> does the following. For \<open>Sgemm\<close> and
  \<open>Tensordot\<close> it leaves the graph and reports no change. For \<open>ConvertRGBAtoR\<close> it
  returns a graph in which the slot \<open>x0\<close> holds a variable of mode RGBA and the slot \<open>y\<close> a
  variable of mode R; for \<open>ConvertRtoRGBA\<close> the modes are R and RGBA. For every other
  class it returns a graph in which each input and each output slot holds the variable it
  held or a variable of mode R; the inputs are as before exactly when all of them were in
  mode R, likewise the outputs, and a change is reported exactly when some slot was not in
  mode R.
\<close>

theorem optimize_op_dispatch:
  assumes op: "op < n_operators g" and wf: "slots_allocated g op"
    and slots: "has_conversion_slots g op"
    and din: "distinct (map fst (op_inputs (operators g op)))"
    and dout: "distinct (map fst (op_outputs (operators g op)))"
  shows "(op_class (operators g op) = Sgemm \<or> op_class (operators g op) = Tensordot \<longrightarrow>
            optimize_op d op g = Inr (False, g))
       \<and> (op_class (operators g op) = ConvertRGBAtoR \<longrightarrow>
            (\<exists>b g'. optimize_op d op g = Inr (b, g')
               \<and> slot_mode d g' (op_inputs (operators g' op)) ''x0'' RGBA
               \<and> slot_mode d g' (op_outputs (operators g' op)) ''y'' R))
       \<and> (op_class (operators g op) = ConvertRtoRGBA \<longrightarrow>
            (\<exists>b g'. optimize_op d op g = Inr (b, g')
               \<and> slot_mode d g' (op_inputs (operators g' op)) ''x0'' R
               \<and> slot_mode d g' (op_outputs (operators g' op)) ''y'' RGBA))
       \<and> (op_class (operators g op) \<noteq> Sgemm \<and> op_class (operators g op) \<noteq> Tensordot
          \<and> op_class (operators g op) \<noteq> ConvertRGBAtoR \<and> op_class (operators g op) \<noteq> ConvertRtoRGBA \<longrightarrow>
            (\<exists>b g'. optimize_op d op g = Inr (b, g')
               \<and> slots_driven d g' R (op_inputs (operators g op)) (op_inputs (operators g' op))
               \<and> slots_driven d g' R (op_outputs (operators g op)) (op_outputs (operators g' op))
               \<and> (op_inputs (operators g' op) = op_inputs (operators g op)
                    \<longleftrightarrow> list_all (\<lambda>s. ChannelMode_get d g (snd s) = R) (op_inputs (operators g op)))
               \<and> (op_outputs (operators g' op) = op_outputs (operators g op)
                    \<longleftrightarrow> list_all (\<lambda>s. ChannelMode_get d g (snd s) = R) (op_outputs (operators g op)))
               \<and> (b \<longleftrightarrow> \<not> list_all (\<lambda>s. ChannelMode_get d g (snd s) = R)
                              (op_inputs (operators g op) @ op_outputs (operators g op)))))"
proof (intro conjI)
  show "op_class (operators g op) = Sgemm \<or> op_class (operators g op) = Tensordot \<longrightarrow>
            optimize_op d op g = Inr (False, g)"
    by (simp add: optimize_op_def)
next
  show "op_class (operators g op) = ConvertRGBAtoR \<longrightarrow>
            (\<exists>b g'. optimize_op d op g = Inr (b, g')
               \<and> slot_mode d g' (op_inputs (operators g' op)) ''x0'' RGBA
               \<and> slot_mode d g' (op_outputs (operators g' op)) ''y'' R)"
  proof
    assume c: "op_class (operators g op) = ConvertRGBAtoR"
    with slots have "''x0'' \<in> set (map fst (op_inputs (operators g op)))"
      "''y'' \<in> set (map fst (op_outputs (operators g op)))"
      by (simp_all add: has_conversion_slots_def)
    from convert_pair_post [OF op wf this, of d RGBA R] c
    show "\<exists>b g'. optimize_op d op g = Inr (b, g')
               \<and> slot_mode d g' (op_inputs (operators g' op)) ''x0'' RGBA
               \<and> slot_mode d g' (op_outputs (operators g' op)) ''y'' R"
      by (simp add: optimize_op_def)
  qed
next
  show "op_class (operators g op) = ConvertRtoRGBA \<longrightarrow>
            (\<exists>b g'. optimize_op d op g = Inr (b, g')
               \<and> slot_mode d g' (op_inputs (operators g' op)) ''x0'' R
               \<and> slot_mode d g' (op_outputs (operators g' op)) ''y'' RGBA)"
  proof
    assume c: "op_class (operators g op) = ConvertRtoRGBA"
    with slots have "''x0'' \<in> set (map fst (op_inputs (operators g op)))"
      "''y'' \<in> set (map fst (op_outputs (operators g op)))"
      by (simp_all add: has_conversion_slots_def)
    from convert_pair_post [OF op wf this, of d R RGBA] c
    show "\<exists>b g'. optimize_op d op g = Inr (b, g')
               \<and> slot_mode d g' (op_inputs (operators g' op)) ''x0'' R
               \<and> slot_mode d g' (op_outputs (operators g' op)) ''y'' RGBA"
      by (simp add: optimize_op_def)
  qed
next
  show "op_class (operators g op) \<noteq> Sgemm \<and> op_class (operators g op) \<noteq> Tensordot
          \<and> op_class (operators g op) \<noteq> ConvertRGBAtoR \<and> op_class (operators g op) \<noteq> ConvertRtoRGBA \<longrightarrow>
            (\<exists>b g'. optimize_op d op g = Inr (b, g')
               \<and> slots_driven d g' R (op_inputs (operators g op)) (op_inputs (operators g' op))
               \<and> slots_driven d g' R (op_outputs (operators g op)) (op_outputs (operators g' op))
               \<and> (op_inputs (operators g' op) = op_inputs (operators g op)
                    \<longleftrightarrow> list_all (\<lambda>s. ChannelMode_get d g (snd s) = R) (op_inputs (operators g op)))
               \<and> (op_outputs (operators g' op) = op_outputs (operators g op)
                    \<longleftrightarrow> list_all (\<lambda>s. ChannelMode_get d g (snd s) = R) (op_outputs (operators g op)))
               \<and> (b \<longleftrightarrow> \<not> list_all (\<lambda>s. ChannelMode_get d g (snd s) = R)
                              (op_inputs (operators g op) @ op_outputs (operators g op))))"
  proof
    assume c: "op_class (operators g op) \<noteq> Sgemm \<and> op_class (operators g op) \<noteq> Tensordot
          \<and> op_class (operators g op) \<noteq> ConvertRGBAtoR \<and> op_class (operators g op) \<noteq> ConvertRtoRGBA"
    then have eq: "optimize_op d op g = bind_err (replace_input_all d op R g) (\<lambda>(b1, g1).
           bind_err (replace_output_all d op R g1) (\<lambda>(b2, g2). Inr (b1 \<or> b2, g2)))"
      by (simp add: optimize_op_def)
    show "\<exists>b g'. optimize_op d op g = Inr (b, g')
               \<and> slots_driven d g' R (op_inputs (operators g op)) (op_inputs (operators g' op))
               \<and> slots_driven d g' R (op_outputs (operators g op)) (op_outputs (operators g' op))
               \<and> (op_inputs (operators g' op) = op_inputs (operators g op)
                    \<longleftrightarrow> list_all (\<lambda>s. ChannelMode_get d g (snd s) = R) (op_inputs (operators g op)))
               \<and> (op_outputs (operators g' op) = op_outputs (operators g op)
                    \<longleftrightarrow> list_all (\<lambda>s. ChannelMode_get d g (snd s) = R) (op_outputs (operators g op)))
               \<and> (b \<longleftrightarrow> \<not> list_all (\<lambda>s. ChannelMode_get d g (snd s) = R)
                              (op_inputs (operators g op) @ op_outputs (operators g op)))"
      unfolding eq by (rule scan_pair_post [OF op wf din dout])
  qed
qed

text \<open>
  Claim C4 on a matrix product, on a \<open>ConvertRGBAtoR\<close> and a \<open>ConvertRtoRGBA\<close> operator,
  and on the addition with two RGBA inputs.
\<close>

theorem optimize_op_dispatch_witness:
  "optimize_op d0 0 rgba_producer = Inr (False, rgba_producer)
   \<and> (\<exists>b g'. optimize_op d0 0 conversions = Inr (b, g')
          \<and> slot_mode d0 g' (op_inputs (operators g' 0)) ''x0'' RGBA
          \<and> slot_mode d0 g' (op_outputs (operators g' 0)) ''y'' R)
   \<and> (\<exists>b g'. optimize_op d0 1 conversions = Inr (b, g')
          \<and> slot_mode d0 g' (op_inputs (operators g' 1)) ''x0'' R
          \<and> slot_mode d0 g' (op_outputs (operators g' 1)) ''y'' RGBA)
   \<and> (\<exists>b g'. optimize_op d0 0 two_rgba_inputs = Inr (b, g')
          \<and> slots_driven d0 g' R [(''x0'', 0), (''x1'', 1)] (op_inputs (operators g' 0))
          \<and> slots_driven d0 g' R [(''y'', 2)] (op_outputs (operators g' 0))
          \<and> op_inputs (operators g' 0) \<noteq> [(''x0'', 0), (''x1'', 1)]
          \<and> op_outputs (operators g' 0) = [(''y'', 2)]
          \<and> b)"
proof -
  have 1: "optimize_op d0 0 rgba_producer = Inr (False, rgba_producer)"
    using optimize_op_dispatch [of 0 rgba_producer d0]
    by (simp add: rgba_producer_def slots_allocated_def has_conversion_slots_def)
  have 2: "\<exists>b g'. optimize_op d0 0 conversions = Inr (b, g')
          \<and> slot_mode d0 g' (op_inputs (operators g' 0)) ''x0'' RGBA
          \<and> slot_mode d0 g' (op_outputs (operators g' 0)) ''y'' R"
    using optimize_op_dispatch [of 0 conversions d0]
    by (simp add: conversions_def slots_allocated_def has_conversion_slots_def)
  have 3: "\<exists>b g'. optimize_op d0 1 conversions = Inr (b, g')
          \<and> slot_mode d0 g' (op_inputs (operators g' 1)) ''x0'' R
          \<and> slot_mode d0 g' (op_outputs (operators g' 1)) ''y'' RGBA"
    using optimize_op_dispatch [of 1 conversions d0]
    by (simp add: conversions_def slots_allocated_def has_conversion_slots_def)
  have 4: "\<exists>b g'. optimize_op d0 0 two_rgba_inputs = Inr (b, g')
          \<and> slots_driven d0 g' R [(''x0'', 0), (''x1'', 1)] (op_inputs (operators g' 0))
          \<and> slots_driven d0 g' R [(''y'', 2)] (op_outputs (operators g' 0))
          \<and> op_inputs (operators g' 0) \<noteq> [(''x0'', 0), (''x1'', 1)]
          \<and> op_outputs (operators g' 0) = [(''y'', 2)]
          \<and> b"
    using optimize_op_dispatch [of 0 two_rgba_inputs d0]
    by (simp add: two_rgba_inputs_def slots_allocated_def has_conversion_slots_def
        ChannelMode_get_def d0_def)
  from 1 2 3 4 show ?thesis by blast
qed

end
